theory Spec2Isabelle
  imports Complex_Main "HOL-Library.Char_ord" "HOL-Library.List_Lexorder"
    "HOL-Library.Product_Lexorder" "HOL-Library.Multiset"
begin

section \<open>Attribute values and strings\<close>

text \<open>
  Strings are lists of characters. The source's strings are sequences of UTF-16 code units;
  a character of HOL is a code unit below 256 (U+0000 to U+00FF). On strings of such code
  units \<open>toLowerCase\<close> works character by character: it maps \<open>A\<close>..\<open>Z\<close> to \<open>a\<close>..\<open>z\<close> and the
  capital letters U+00C0 to U+00DE (all but the multiplication sign U+00D7) to the letters
  32 code units above them, and leaves every other character alone. Numbers are exact
  rationals or integers: no rounding, no NaN.

  An \<open>AttributeValue\<close> of the tracing API is a string, a number, a boolean or an array of
  (possibly missing) values of one of these kinds. An optional argument that is
  \<open>undefined\<close> is \<open>None\<close>.
\<close>

datatype AttributeValue =
    StringValue string
  | NumberValue rat
  | BooleanValue bool
  | StringArray "string option list"
  | NumberArray "rat option list"
  | BooleanArray "bool option list"

text \<open>\<open>typeof text === 'string'\<close>, with the string when it is one.\<close>

fun asString :: "AttributeValue option \<Rightarrow> string option" where
  "asString (Some (StringValue s)) = Some s"
| "asString _ = None"

definition upperCaseChars :: "char list" where
  "upperCaseChars =
     ''ABCDEFGHIJKLMNOPQRSTUVWXYZ'' @
     [CHR 0xC0, CHR 0xC1, CHR 0xC2, CHR 0xC3, CHR 0xC4, CHR 0xC5, CHR 0xC6, CHR 0xC7,
      CHR 0xC8, CHR 0xC9, CHR 0xCA, CHR 0xCB, CHR 0xCC, CHR 0xCD, CHR 0xCE, CHR 0xCF,
      CHR 0xD0, CHR 0xD1, CHR 0xD2, CHR 0xD3, CHR 0xD4, CHR 0xD5, CHR 0xD6,
      CHR 0xD8, CHR 0xD9, CHR 0xDA, CHR 0xDB, CHR 0xDC, CHR 0xDD, CHR 0xDE]"

definition lowerCaseChars :: "char list" where
  "lowerCaseChars =
     ''abcdefghijklmnopqrstuvwxyz'' @
     [CHR 0xE0, CHR 0xE1, CHR 0xE2, CHR 0xE3, CHR 0xE4, CHR 0xE5, CHR 0xE6, CHR 0xE7,
      CHR 0xE8, CHR 0xE9, CHR 0xEA, CHR 0xEB, CHR 0xEC, CHR 0xED, CHR 0xEE, CHR 0xEF,
      CHR 0xF0, CHR 0xF1, CHR 0xF2, CHR 0xF3, CHR 0xF4, CHR 0xF5, CHR 0xF6,
      CHR 0xF8, CHR 0xF9, CHR 0xFA, CHR 0xFB, CHR 0xFC, CHR 0xFD, CHR 0xFE]"

definition lowerChar :: "char \<Rightarrow> char" where
  "lowerChar c =
     (case map_of (zip upperCaseChars lowerCaseChars) c of
        Some l \<Rightarrow> l
      | None \<Rightarrow> c)"

definition toLowerCase :: "string \<Rightarrow> string" where
  "toLowerCase s = map lowerChar s"

section \<open>Wildcard patterns as regular expressions (utils.ts)\<close>

text \<open>
  \<open>escapeRegExp\<close> is \<open>regExPattern.replace(/[.+^${}()|[\]\\]/g, '\\$&')\<close>: every character of
  the class gets a backslash in front of it. The class leaves out \<open>*\<close> and \<open>?\<close>.
\<close>

definition escapedChars :: "char list" where
  "escapedChars = ''.+^${}()|[]'' @ [CHR 0x5C]"

definition escapeRegExp :: "string \<Rightarrow> string" where
  "escapeRegExp regExPattern =
     concat (map (\<lambda>c. if c \<in> set escapedChars then [CHR 0x5C, c] else [c]) regExPattern)"

text \<open>\<open>s.replace(/c/g, r)\<close> for a single character \<open>c\<close>.\<close>

definition replaceChar :: "char \<Rightarrow> string \<Rightarrow> string \<Rightarrow> string" where
  "replaceChar c r s = concat (map (\<lambda>x. if x = c then r else [x]) s)"

definition convertPatternToRegExp :: "string \<Rightarrow> string" where
  "convertPatternToRegExp pattern =
     replaceChar (CHR ''?'') ''.'' (replaceChar (CHR ''*'') ''.*'' (escapeRegExp pattern))"

text \<open>
  \<open>text.match(source)\<close> with a string argument compiles \<open>new RegExp(source)\<close> (no flags) and
  searches \<open>text\<close> for it. The embedding reads the regular expressions that
  \<open>convertPatternToRegExp\<close> can produce between \<open>^\<close> and \<open>$\<close>: an escaped character
  \<open>\c\<close> and any character that is not a syntax character stand for themselves, \<open>.\<close> is any
  character but a line terminator (line feed and carriage return, among the code units
  below 256), \<open>.*\<close> is any run of such characters, \<open>^\<close> and \<open>$\<close> assert the start and the
  end of the input. Any other source is outside the fragment (\<open>None\<close>).
\<close>

datatype RegExpTerm = Literal char | AnyChar | AnyCharStar | InputStart | InputEnd

definition syntaxChars :: "char list" where
  "syntaxChars = ''^$.*+?()[]{}|'' @ [CHR 0x5C]"

fun parseRegExp :: "string \<Rightarrow> RegExpTerm list option" where
  "parseRegExp [] = Some []"
| "parseRegExp (c # rest) =
     (if c = CHR 0x5C then
        (case rest of
           [] \<Rightarrow> None
         | e # rest' \<Rightarrow>
             (if e \<in> set syntaxChars
              then map_option ((#) (Literal e)) (parseRegExp rest') else None))
      else if c = CHR ''.'' then
        (case rest of
           [] \<Rightarrow> Some [AnyChar]
         | d # rest' \<Rightarrow>
             (if d = CHR ''*'' then map_option ((#) AnyCharStar) (parseRegExp rest')
              else map_option ((#) AnyChar) (parseRegExp rest)))
      else if c = CHR ''^'' then map_option ((#) InputStart) (parseRegExp rest)
      else if c = CHR ''$'' then map_option ((#) InputEnd) (parseRegExp rest)
      else if c \<in> set syntaxChars then None
      else map_option ((#) (Literal c)) (parseRegExp rest))"

definition lineTerminator :: "char \<Rightarrow> bool" where
  "lineTerminator c = (c = CHR 0x0A \<or> c = CHR 0x0D)"

text \<open>
  \<open>matchHere ts atStart s\<close>: the terms \<open>ts\<close> match a prefix of \<open>s\<close>, where \<open>atStart\<close> tells
  whether \<open>s\<close> begins at the start of the input. Backtracking over \<open>.*\<close> is the
  disjunction.
\<close>

fun matchHere :: "RegExpTerm list \<Rightarrow> bool \<Rightarrow> string \<Rightarrow> bool" where
  "matchHere [] atStart s = True"
| "matchHere (InputStart # ts) atStart s = (atStart \<and> matchHere ts atStart s)"
| "matchHere (InputEnd # ts) atStart s = (s = [] \<and> matchHere ts atStart s)"
| "matchHere (Literal c # ts) atStart [] = False"
| "matchHere (Literal c # ts) atStart (x # xs) = (x = c \<and> matchHere ts False xs)"
| "matchHere (AnyChar # ts) atStart [] = False"
| "matchHere (AnyChar # ts) atStart (x # xs) = (\<not> lineTerminator x \<and> matchHere ts False xs)"
| "matchHere (AnyCharStar # ts) atStart [] = matchHere ts atStart []"
| "matchHere (AnyCharStar # ts) atStart (x # xs) =
     ((\<not> lineTerminator x \<and> matchHere (AnyCharStar # ts) False xs) \<or>
      matchHere ts atStart (x # xs))"

text \<open>The search of \<open>match\<close>: a match starting at some position of the text.\<close>

fun searchFrom :: "RegExpTerm list \<Rightarrow> bool \<Rightarrow> string \<Rightarrow> bool" where
  "searchFrom ts atStart [] = matchHere ts atStart []"
| "searchFrom ts atStart (x # xs) =
     (matchHere ts atStart (x # xs) \<or> searchFrom ts False xs)"

text \<open>The template string \<open>`^${source}$`\<close>.\<close>

definition anchored :: "string \<Rightarrow> string" where
  "anchored source = ''^'' @ source @ ''$''"

text \<open>\<open>text.match(source) !== null\<close>; \<open>None\<close> when the source is outside the fragment.\<close>

definition stringMatch :: "string \<Rightarrow> string \<Rightarrow> bool option" where
  "stringMatch text source = map_option (\<lambda>ts. searchFrom ts True text) (parseRegExp source)"

text \<open>
  \<open>wildcardMatch(pattern?, text?)\<close>. The debug log of the failing branch is not modelled.
  The result is \<open>None\<close> only if the regular expression were outside the fragment above,
  which \<open>wildcardMatch_total\<close> excludes.
\<close>

definition wildcardMatchResult :: "string option \<Rightarrow> AttributeValue option \<Rightarrow> bool option" where
  "wildcardMatchResult pattern text =
     (if pattern = Some ''*'' then Some True
      else case (pattern, asString text) of
             (None, _) \<Rightarrow> Some False
           | (_, None) \<Rightarrow> Some False
           | (Some p, Some t) \<Rightarrow>
               (if length p = 0 then Some (length t = 0)
                else stringMatch (toLowerCase t)
                       (anchored (convertPatternToRegExp (toLowerCase p)))))"

definition wildcardMatch :: "string option \<Rightarrow> AttributeValue option \<Rightarrow> bool" where
  "wildcardMatch pattern text = (wildcardMatchResult pattern text = Some True)"

section \<open>Attribute matching (utils.ts)\<close>

text \<open>
  An object is the list of its entries, in the order of \<open>Object.entries\<close>; its keys are
  pairwise distinct, which the theorems about objects assume. A value of the candidate's
  attributes may be \<open>undefined\<close>.
\<close>

type_synonym Attributes = "(string \<times> AttributeValue option) list"
type_synonym RuleAttributes = "(string \<times> string) list"

definition keys :: "(string \<times> 'v) list \<Rightarrow> string list" where
  "keys obj = map fst obj"

text \<open>The \<open>for\<close> loop of \<open>attributeMatch\<close> over the entries of \<open>attributes\<close>.\<close>

fun countMatches :: "RuleAttributes \<Rightarrow> Attributes \<Rightarrow> nat \<Rightarrow> nat" where
  "countMatches ruleAttributes [] matchedCount = matchedCount"
| "countMatches ruleAttributes ((key, val) # rest) matchedCount =
     (case find (\<lambda>ruleKey. ruleKey = key) (keys ruleAttributes) of
        None \<Rightarrow> countMatches ruleAttributes rest matchedCount
      | Some foundKey \<Rightarrow>
          (if wildcardMatch (map_of ruleAttributes foundKey) val
           then countMatches ruleAttributes rest (matchedCount + 1)
           else countMatches ruleAttributes rest matchedCount))"

definition attributeMatch :: "Attributes option \<Rightarrow> RuleAttributes option \<Rightarrow> bool" where
  "attributeMatch attributes ruleAttributes =
     (case ruleAttributes of
        None \<Rightarrow> True
      | Some ra \<Rightarrow>
          (if length (keys ra) = 0 then True
           else case attributes of
              None \<Rightarrow> False
            | Some attrs \<Rightarrow>
                (if length (keys attrs) = 0 \<or> length (keys ra) > length (keys attrs) then False
                 else countMatches ra attrs 0 = length (keys ra))))"

section \<open>Rules, targets and appliers\<close>

text \<open>
  Modelled from the spec: the declarations of \<open>sampling-rule.ts\<close>,
  \<open>remote-sampler.types.ts\<close> and \<open>sampling-rule-applier.ts\<close>, which are not among the
  sources. The records of this section and \<open>SamplingStatisticsDocument\<close> below follow the
  data model of the specification and the fields the sources read; where two records have
  a field of the same name, the later one carries a prefix.
\<close>

record SamplingRule =
  RuleName :: string
  Priority :: int
  ResourceARN :: string
  ServiceName :: string
  ServiceType :: string
  Host :: string
  HTTPMethod :: string
  URLPath :: string
  ReservoirSize :: int
  FixedRate :: rat
  Attributes :: "RuleAttributes option"
  Version :: int

text \<open>
  Modelled from the spec: \<open>SamplingRule.equals\<close>, whose source is missing. "Equality is full
  structural comparison": the fields are equal one by one, and the attribute maps have the
  same entries, in whatever order they are listed. The argument may be \<open>undefined\<close>
  (\<open>None\<close>), which no rule equals.
\<close>

definition attributesEqual :: "RuleAttributes option \<Rightarrow> RuleAttributes option \<Rightarrow> bool" where
  "attributesEqual a b =
     (case a of
        None \<Rightarrow> b = None
      | Some x \<Rightarrow> (case b of None \<Rightarrow> False | Some y \<Rightarrow> set x = set y))"

definition equals :: "SamplingRule \<Rightarrow> SamplingRule option \<Rightarrow> bool" where
  "equals rule other =
     (case other of
        None \<Rightarrow> False
      | Some r \<Rightarrow>
          RuleName rule = RuleName r \<and> Priority rule = Priority r \<and>
          ResourceARN rule = ResourceARN r \<and> ServiceName rule = ServiceName r \<and>
          ServiceType rule = ServiceType r \<and> Host rule = Host r \<and>
          HTTPMethod rule = HTTPMethod r \<and> URLPath rule = URLPath r \<and>
          ReservoirSize rule = ReservoirSize r \<and> FixedRate rule = FixedRate r \<and>
          Version rule = Version r \<and> attributesEqual (Attributes rule) (Attributes r))"

record SamplingTargetDocument =
  TargetRuleName :: string
  TargetFixedRate :: rat
  ReservoirQuota :: "int option"
  ReservoirQuotaTTL :: "int option"
  Interval :: "int option"

text \<open>
  A plain object inherits the properties of \<open>Object.prototype\<close>: \<open>name in obj\<close> holds and
  \<open>obj[name]\<close> is a function (for \<open>__proto__\<close>, the prototype object) when \<open>name\<close> is one of
  these and the object has no entry of its own for it.
\<close>

definition objectPrototypeNames :: "string list" where
  "objectPrototypeNames =
     [''constructor'', ''__defineGetter__'', ''__defineSetter__'', ''hasOwnProperty'',
      ''__lookupGetter__'', ''__lookupSetter__'', ''isPrototypeOf'', ''propertyIsEnumerable'',
      ''toString'', ''valueOf'', ''__proto__'', ''toLocaleString'']"

text \<open>
  A \<open>TargetMap\<close> is a plain object from rule names to target documents: the list of its
  own entries. \<open>targetDocuments[name]\<close> is the document of the entry, else the inherited
  property, else \<open>undefined\<close> (\<open>None\<close>). Both values are truthy; an inherited property has
  none of the fields of a target document.
\<close>

type_synonym TargetMap = "(string \<times> SamplingTargetDocument) list"

datatype TargetValue = TargetDocument SamplingTargetDocument | InheritedProperty

definition lookupTarget :: "TargetMap \<Rightarrow> string \<Rightarrow> TargetValue option" where
  "lookupTarget targetDocuments name =
     (case map_of targetDocuments name of
        Some target \<Rightarrow> Some (TargetDocument target)
      | None \<Rightarrow> if name \<in> set objectPrototypeNames then Some InheritedProperty else None)"

text \<open>\<open>target.Interval\<close> of what the lookup found.\<close>

fun intervalOf :: "TargetValue \<Rightarrow> int option" where
  "intervalOf (TargetDocument target) = Interval target"
| "intervalOf InheritedProperty = None"

record Statistics =
  RequestCount :: nat
  SampleCount :: nat
  BorrowCount :: nat

text \<open>
  An applier owns its rule, its statistics and the state of its samplers (the quota of the
  reservoir, the time the quota expires, the fixed rate). Two appliers are the same
  instance when they agree on all of it.
\<close>

record SamplingRuleApplier =
  samplingRule :: SamplingRule
  statistics :: Statistics
  reservoirQuota :: "int option"
  reservoirQuotaTTL :: "int option"
  fixedRate :: "rat option"

text \<open>
  Modelled from the spec: the constructor of \<open>SamplingRuleApplier\<close> for a rule that has just
  arrived, whose source is missing. "Fresh reservoir, zeroed statistics".
\<close>

definition newSamplingRuleApplier :: "SamplingRule \<Rightarrow> SamplingRuleApplier" where
  "newSamplingRuleApplier rule =
     \<lparr>samplingRule = rule,
      statistics = \<lparr>RequestCount = 0, SampleCount = 0, BorrowCount = 0\<rparr>,
      reservoirQuota = None, reservoirQuotaTTL = None, fixedRate = Some (FixedRate rule)\<rparr>"

text \<open>
  Modelled from the spec: \<open>SamplingRuleApplier.withTarget\<close>, whose source is missing. It
  "returns a new, otherwise-equivalent applier with reservoir quota/TTL/fixedRate replaced
  by target values while preserving accumulated statistics"; the target values of an
  inherited property are all \<open>undefined\<close>. The operations of the cache below take
  \<open>withTarget\<close> and \<open>matches\<close> as arguments, so what is proved of them holds for any
  implementation of the two methods.
\<close>

fun withTarget :: "SamplingRuleApplier \<Rightarrow> TargetValue \<Rightarrow> SamplingRuleApplier" where
  "withTarget applier (TargetDocument target) =
     applier\<lparr>reservoirQuota := ReservoirQuota target,
             reservoirQuotaTTL := ReservoirQuotaTTL target,
             fixedRate := Some (TargetFixedRate target)\<rparr>"
| "withTarget applier InheritedProperty =
     applier\<lparr>reservoirQuota := None, reservoirQuotaTTL := None, fixedRate := None\<rparr>"

text \<open>
  Modelled from the spec: \<open>SamplingRuleApplier.snapshotStatistics\<close>, whose source is missing.
  "Atomic read-and-reset".
\<close>

definition snapshotStatistics :: "SamplingRuleApplier \<Rightarrow> Statistics \<times> SamplingRuleApplier" where
  "snapshotStatistics applier =
     (statistics applier,
      applier\<lparr>statistics := \<lparr>RequestCount = 0, SampleCount = 0, BorrowCount = 0\<rparr>\<rparr>)"

section \<open>The rule cache (rule-cache.ts)\<close>

definition RULE_CACHE_TTL_MILLIS :: int where
  "RULE_CACHE_TTL_MILLIS = 60 * 60 * 1000"

definition DEFAULT_TARGET_POLLING_INTERVAL_SECONDS :: int where
  "DEFAULT_TARGET_POLLING_INTERVAL_SECONDS = 10"

text \<open>
  The state of a \<open>RuleCache\<close>. The resource is opaque. \<open>Date.now()\<close> is an argument \<open>now\<close>
  of every operation that reads the clock.
\<close>

record 'res RuleCache =
  ruleAppliers :: "SamplingRuleApplier list"
  lastUpdatedEpochMillis :: int
  samplerResource :: 'res

definition newRuleCache :: "'res \<Rightarrow> int \<Rightarrow> 'res RuleCache" where
  "newRuleCache resource now =
     \<lparr>ruleAppliers = [], lastUpdatedEpochMillis = now, samplerResource = resource\<rparr>"

definition isExpired :: "'res RuleCache \<Rightarrow> int \<Rightarrow> bool" where
  "isExpired cache nowInMillis =
     (nowInMillis > lastUpdatedEpochMillis cache + RULE_CACHE_TTL_MILLIS)"

text \<open>
  \<open>getMatchedRule\<close>: \<open>Array.prototype.find\<close> returns the first element of the array that
  satisfies the predicate, \<open>undefined\<close> (\<open>None\<close>) when there is none.
\<close>

definition getMatchedRule ::
  "(SamplingRuleApplier \<Rightarrow> Attributes \<Rightarrow> 'res \<Rightarrow> bool) \<Rightarrow> 'res RuleCache \<Rightarrow> Attributes
     \<Rightarrow> SamplingRuleApplier option" where
  "getMatchedRule matches cache attributes =
     find (\<lambda>rule. matches rule attributes (samplerResource cache) \<or>
                  RuleName (samplingRule rule) = ''Default'')
       (ruleAppliers cache)"

text \<open>
  The comparator of \<open>sortRulesByPriority\<close>. Strings compare by their characters, a proper
  prefix first, as \<open><\<close> does on the source's strings.
\<close>

definition compareRules :: "SamplingRuleApplier \<Rightarrow> SamplingRuleApplier \<Rightarrow> int" where
  "compareRules rule1 rule2 =
     (if Priority (samplingRule rule1) = Priority (samplingRule rule2)
      then (if RuleName (samplingRule rule1) < RuleName (samplingRule rule2) then - 1 else 1)
      else Priority (samplingRule rule1) - Priority (samplingRule rule2))"

text \<open>
  \<open>Array.prototype.sort(compareFn)\<close> is a stable sort. The elements are taken from first to
  last, and each goes into the sorted elements before it, in front of the first one it
  compares less than; so elements that never compare less than one another keep the order
  they came in. Where the comparator is a strict order of the elements (here: no two rules
  share priority and name) the sorted array is the same for every sorting algorithm.
\<close>

fun insertSorted :: "('a \<Rightarrow> 'a \<Rightarrow> int) \<Rightarrow> 'a \<Rightarrow> 'a list \<Rightarrow> 'a list" where
  "insertSorted compareFn x [] = [x]"
| "insertSorted compareFn x (y # ys) =
     (if compareFn x y < 0 then x # y # ys else y # insertSorted compareFn x ys)"

definition arraySort :: "('a \<Rightarrow> 'a \<Rightarrow> int) \<Rightarrow> 'a list \<Rightarrow> 'a list" where
  "arraySort compareFn xs = fold (insertSorted compareFn) xs []"

definition sortRulesByPriority :: "SamplingRuleApplier list \<Rightarrow> SamplingRuleApplier list" where
  "sortRulesByPriority appliers = arraySort compareRules appliers"

text \<open>
  \<open>updateRules\<close>. \<open>oldRuleAppliersMap\<close> holds the entries of the object filled by the first
  \<open>forEach\<close>: a later applier of the same name overwrites an earlier one. The second
  \<open>forEach\<close> rewrites the incoming array index by index. \<open>ruleNameToCheck in
  oldRuleAppliersMap\<close> also holds for an inherited property name; what is found there is no
  applier and its \<open>samplingRule\<close> is \<open>undefined\<close>, which no rule equals. (An applier named
  \<open>__proto__\<close> becomes the prototype of the object instead of an entry, and is read back
  under that name like one.)
\<close>

definition oldRuleAppliersMap :: "SamplingRuleApplier list \<Rightarrow> (string \<rightharpoonup> SamplingRuleApplier)" where
  "oldRuleAppliersMap appliers =
     fold (\<lambda>rule m. m(RuleName (samplingRule rule) \<mapsto> rule)) appliers Map.empty"

definition substituteOld ::
  "(string \<rightharpoonup> SamplingRuleApplier) \<Rightarrow> SamplingRuleApplier \<Rightarrow> SamplingRuleApplier" where
  "substituteOld oldMap newRule =
     (let ruleNameToCheck = RuleName (samplingRule newRule) in
      if oldMap ruleNameToCheck \<noteq> None \<or> ruleNameToCheck \<in> set objectPrototypeNames then
        (if equals (samplingRule newRule) (map_option samplingRule (oldMap ruleNameToCheck))
         then (case oldMap ruleNameToCheck of Some oldRule \<Rightarrow> oldRule | None \<Rightarrow> newRule)
         else newRule)
      else newRule)"

definition updateRules ::
  "'res RuleCache \<Rightarrow> SamplingRuleApplier list \<Rightarrow> int \<Rightarrow> 'res RuleCache" where
  "updateRules cache newRuleAppliers now =
     cache\<lparr>ruleAppliers :=
              sortRulesByPriority
                (map (substituteOld (oldRuleAppliersMap (ruleAppliers cache))) newRuleAppliers),
           lastUpdatedEpochMillis := now\<rparr>"

record SamplingStatisticsDocument =
  ClientID :: string
  DocRuleName :: string
  Timestamp :: int
  DocRequestCount :: nat
  DocBorrowCount :: nat
  SampledCount :: nat

text \<open>
  \<open>createSamplingStatisticsDocuments\<close>: one document per applier; taking the snapshot
  resets the statistics of the applier in place. The clock is read once for every
  applier: \<open>clock i\<close> is what \<open>Date.now()\<close> returns for the applier at index \<open>i\<close>.
\<close>

fun statisticsDocuments ::
  "string \<Rightarrow> (nat \<Rightarrow> int) \<Rightarrow> nat \<Rightarrow> SamplingRuleApplier list
     \<Rightarrow> SamplingStatisticsDocument list \<times> SamplingRuleApplier list" where
  "statisticsDocuments clientId clock index [] = ([], [])"
| "statisticsDocuments clientId clock index (rule # rest) =
     (let (stats, rule') = snapshotStatistics rule;
          nowInSeconds = clock index div 1000;
          samplingStatisticsDoc =
            \<lparr>ClientID = clientId,
             DocRuleName = RuleName (samplingRule rule),
             Timestamp = nowInSeconds,
             DocRequestCount = RequestCount stats,
             DocBorrowCount = BorrowCount stats,
             SampledCount = SampleCount stats\<rparr>;
          (docs, rest') = statisticsDocuments clientId clock (Suc index) rest
      in (samplingStatisticsDoc # docs, rule' # rest'))"

definition createSamplingStatisticsDocuments ::
  "'res RuleCache \<Rightarrow> string \<Rightarrow> (nat \<Rightarrow> int)
     \<Rightarrow> SamplingStatisticsDocument list \<times> 'res RuleCache" where
  "createSamplingStatisticsDocuments cache clientId clock =
     (let (docs, appliers) = statisticsDocuments clientId clock 0 (ruleAppliers cache)
      in (docs, cache\<lparr>ruleAppliers := appliers\<rparr>))"

text \<open>
  \<open>updateTargets\<close>. The loop runs over the appliers of the cache, carrying
  \<open>minPollingInteral\<close>; it returns the rewritten appliers. \<open>if (target)\<close> holds when
  \<open>targetDocuments[name]\<close> is an entry or an inherited property; \<open>if (target.Interval)\<close>
  holds when the interval is present and not \<open>0\<close>.
\<close>

fun updateTargetsLoop ::
  "(SamplingRuleApplier \<Rightarrow> TargetValue \<Rightarrow> SamplingRuleApplier) \<Rightarrow> TargetMap
     \<Rightarrow> SamplingRuleApplier list \<Rightarrow> int option \<Rightarrow> SamplingRuleApplier list \<times> int option" where
  "updateTargetsLoop withTargetFn targetDocuments [] minPollingInteral =
     ([], minPollingInteral)"
| "updateTargetsLoop withTargetFn targetDocuments (rule # rest) minPollingInteral =
     (case lookupTarget targetDocuments (RuleName (samplingRule rule)) of
        Some target \<Rightarrow>
          (let minPollingInteral' =
                 (case intervalOf target of
                    None \<Rightarrow> minPollingInteral
                  | Some interval \<Rightarrow>
                      (if interval \<noteq> 0 then
                         (case minPollingInteral of
                            None \<Rightarrow> Some interval
                          | Some m \<Rightarrow> if m > interval then Some interval else Some m)
                       else minPollingInteral));
               (rest', result) =
                 updateTargetsLoop withTargetFn targetDocuments rest minPollingInteral'
           in (withTargetFn rule target # rest', result))
      | None \<Rightarrow>
          (let (rest', result) =
                 updateTargetsLoop withTargetFn targetDocuments rest minPollingInteral
           in (rule # rest', result)))"

definition updateTargets ::
  "(SamplingRuleApplier \<Rightarrow> TargetValue \<Rightarrow> SamplingRuleApplier) \<Rightarrow> 'res RuleCache
     \<Rightarrow> TargetMap \<Rightarrow> int \<Rightarrow> 'res RuleCache \<times> bool \<times> int" where
  "updateTargets withTargetFn cache targetDocuments lastRuleModification =
     (let (appliers, minPollingInteral) =
            updateTargetsLoop withTargetFn targetDocuments (ruleAppliers cache) None;
          nextPollingInterval =
            (case minPollingInteral of
               None \<Rightarrow> DEFAULT_TARGET_POLLING_INTERVAL_SECONDS
             | Some m \<Rightarrow> if m \<noteq> 0 then m else DEFAULT_TARGET_POLLING_INTERVAL_SECONDS);
          refreshSamplingRules = (lastRuleModification * 1000 > lastUpdatedEpochMillis cache)
      in (cache\<lparr>ruleAppliers := appliers\<rparr>, refreshSamplingRules, nextPollingInterval))"

section \<open>The fallback sampler (fallback-sampler.ts)\<close>

text \<open>The decisions and the result of a sampler, as the tracing SDK declares them.\<close>

datatype SamplingDecision = NOT_RECORD | RECORD | RECORD_AND_SAMPLED

record SamplingResult =
  decision :: SamplingDecision
  resultAttributes :: "Attributes option"

text \<open>The arguments of \<open>shouldSample\<close>; context, span kind and links are opaque.\<close>

record ('ctx, 'kind, 'link) SamplingRequest =
  requestContext :: 'ctx
  traceId :: string
  spanName :: string
  spanKind :: 'kind
  attributes :: Attributes
  links :: "'link list"

text \<open>
  The two samplers a \<open>FallbackSampler\<close> owns come from other modules
  (\<open>TraceIdRatioBasedSampler\<close> of the tracing SDK, \<open>RateLimitingSampler\<close>); their
  constructors and their \<open>shouldSample\<close> methods are arguments. The rate limiter has
  state, which its \<open>shouldSample\<close> returns updated.
\<close>

record ('fixed, 'limiter) FallbackSampler =
  fixedRateSampler :: 'fixed
  rateLimitingSampler :: 'limiter

definition newFallbackSampler ::
  "(rat \<Rightarrow> 'fixed) \<Rightarrow> (int \<Rightarrow> 'limiter) \<Rightarrow> ('fixed, 'limiter) FallbackSampler" where
  "newFallbackSampler newTraceIdRatioBasedSampler newRateLimitingSampler =
     \<lparr>fixedRateSampler = newTraceIdRatioBasedSampler (5 / 100),
      rateLimitingSampler = newRateLimitingSampler 1\<rparr>"

definition shouldSample ::
  "('limiter \<Rightarrow> ('ctx, 'kind, 'link) SamplingRequest \<Rightarrow> SamplingResult \<times> 'limiter)
     \<Rightarrow> ('fixed \<Rightarrow> 'ctx \<Rightarrow> string \<Rightarrow> SamplingResult)
     \<Rightarrow> ('fixed, 'limiter) FallbackSampler \<Rightarrow> ('ctx, 'kind, 'link) SamplingRequest
     \<Rightarrow> SamplingResult \<times> ('fixed, 'limiter) FallbackSampler" where
  "shouldSample limiterShouldSample fixedShouldSample sampler request =
     (let (samplingResult, limiter') = limiterShouldSample (rateLimitingSampler sampler) request;
          sampler' = sampler\<lparr>rateLimitingSampler := limiter'\<rparr>
      in if decision samplingResult \<noteq> NOT_RECORD then (samplingResult, sampler')
         else (fixedShouldSample (fixedRateSampler sampler) (requestContext request) (traceId request),
               sampler'))"

section \<open>Auxiliary definitions\<close>

text \<open>
  What \<open>convertPatternToRegExp\<close> makes of one character of the pattern, and the term of the
  regular expression that the result is read as.
\<close>

definition convertChar :: "char \<Rightarrow> string" where
  "convertChar c =
     (if c \<in> set escapedChars then [CHR 0x5C, c]
      else if c = CHR ''*'' then ''.*''
      else if c = CHR ''?'' then ''.''
      else [c])"

definition termOfChar :: "char \<Rightarrow> RegExpTerm" where
  "termOfChar c =
     (if c = CHR ''*'' then AnyCharStar else if c = CHR ''?'' then AnyChar else Literal c)"

text \<open>The entries of the candidate that count in the loop of \<open>attributeMatch\<close>.\<close>

definition declaredMatch :: "RuleAttributes \<Rightarrow> string \<times> AttributeValue option \<Rightarrow> bool" where
  "declaredMatch ra entry =
     (fst entry \<in> set (keys ra) \<and> wildcardMatch (map_of ra (fst entry)) (snd entry))"

text \<open>The pair that orders the rules: priority first, then name.\<close>

definition ruleKey :: "SamplingRuleApplier \<Rightarrow> int \<times> string" where
  "ruleKey rule = (Priority (samplingRule rule), RuleName (samplingRule rule))"

definition ruleName :: "SamplingRuleApplier \<Rightarrow> string" where
  "ruleName rule = RuleName (samplingRule rule)"

text \<open>
  C1 in the words of the specification: the satisfied applier of lowest
  (Priority, RuleName), else the applier named \<open>Default\<close>, else none.
\<close>

definition claimedMatchedRule ::
  "(SamplingRuleApplier \<Rightarrow> Attributes \<Rightarrow> 'res \<Rightarrow> bool) \<Rightarrow> 'res RuleCache \<Rightarrow> Attributes
     \<Rightarrow> SamplingRuleApplier option" where
  "claimedMatchedRule matches cache attrs =
     (let satisfied = filter (\<lambda>rule. matches rule attrs (samplerResource cache))
                        (ruleAppliers cache)
      in if satisfied \<noteq> [] then Some (arg_min_list ruleKey satisfied)
         else find (\<lambda>rule. RuleName (samplingRule rule) = ''Default'') (ruleAppliers cache))"

text \<open>
  C2 in the words of the specification: the old applier whose rule is structurally
  identical to the incoming one, else the incoming applier. \<open>namedMap\<close> is the object that
  the first loop of \<open>updateRules\<close> fills, from any starting object.
\<close>

definition retainOrAdopt :: "SamplingRuleApplier list \<Rightarrow> SamplingRuleApplier \<Rightarrow> SamplingRuleApplier" where
  "retainOrAdopt old newRule =
     (case find (\<lambda>oldRule. equals (samplingRule newRule) (Some (samplingRule oldRule))) old of
        Some oldRule \<Rightarrow> oldRule
      | None \<Rightarrow> newRule)"

definition namedMap ::
  "SamplingRuleApplier list \<Rightarrow> (string \<rightharpoonup> SamplingRuleApplier) \<Rightarrow> (string \<rightharpoonup> SamplingRuleApplier)" where
  "namedMap appliers m = fold (\<lambda>rule m. m(RuleName (samplingRule rule) \<mapsto> rule)) appliers m"

text \<open>
  The intervals that \<open>updateTargets\<close> takes into account: those of the targets it applies
  to an applier of the cache, where they are present and not \<open>0\<close>.
\<close>

definition appliedIntervals :: "TargetMap \<Rightarrow> SamplingRuleApplier list \<Rightarrow> int list" where
  "appliedIntervals targetDocuments appliers =
     [interval. rule \<leftarrow> appliers,
                Some target \<leftarrow> [map_of targetDocuments (RuleName (samplingRule rule))],
                Some interval \<leftarrow> [Interval target], interval \<noteq> 0]"

text \<open>
  C8 in the words of the specification: the minimum \<open>Interval\<close> among the received
  targets, \<open>10\<close> when no received target carries one.
\<close>

definition receivedIntervals :: "TargetMap \<Rightarrow> int list" where
  "receivedIntervals targetDocuments =
     [interval. (name, target) \<leftarrow> targetDocuments, Some interval \<leftarrow> [Interval target]]"

definition claimedPollingInterval :: "TargetMap \<Rightarrow> int" where
  "claimedPollingInterval targetDocuments =
     (if receivedIntervals targetDocuments = [] then DEFAULT_TARGET_POLLING_INTERVAL_SECONDS
      else Min (set (receivedIntervals targetDocuments)))"

text \<open>The minimum the loop of \<open>updateTargets\<close> carries, and one step of it.\<close>

definition minWith :: "int option \<Rightarrow> int list \<Rightarrow> int option" where
  "minWith m is =
     (case m of
        None \<Rightarrow> if is = [] then None else Some (Min (set is))
      | Some x \<Rightarrow> Some (Min (insert x (set is))))"

definition stepMin :: "TargetMap \<Rightarrow> SamplingRuleApplier \<Rightarrow> int option \<Rightarrow> int option" where
  "stepMin tm rule m =
     (case map_of tm (RuleName (samplingRule rule)) of
        None \<Rightarrow> m
      | Some target \<Rightarrow>
          (case Interval target of
             None \<Rightarrow> m
           | Some interval \<Rightarrow>
               (if interval \<noteq> 0 then
                  (case m of
                     None \<Rightarrow> Some interval
                   | Some x \<Rightarrow> if x > interval then Some interval else Some x)
                else m)))"

text \<open>
  Concrete values for the examples: a rule that declares no conditions, a target, and a
  \<open>matches\<close> that tests the attributes a rule declares (the method of the applier also
  tests the fields derived from the resource).
\<close>

definition exampleRule :: "string \<Rightarrow> int \<Rightarrow> SamplingRule" where
  "exampleRule name priority =
     \<lparr>RuleName = name, Priority = priority, ResourceARN = ''*'', ServiceName = ''*'',
      ServiceType = ''*'', Host = ''*'', HTTPMethod = ''*'', URLPath = ''*'',
      ReservoirSize = 1, FixedRate = 5 / 100, Attributes = None, Version = 1\<rparr>"

definition exampleTarget :: "string \<Rightarrow> int option \<Rightarrow> SamplingTargetDocument" where
  "exampleTarget name interval =
     \<lparr>TargetRuleName = name, TargetFixedRate = 1 / 10, ReservoirQuota = Some 3,
      ReservoirQuotaTTL = Some 1700000000, Interval = interval\<rparr>"

definition exampleMatches :: "SamplingRuleApplier \<Rightarrow> Attributes \<Rightarrow> unit \<Rightarrow> bool" where
  "exampleMatches rule attrs resource =
     attributeMatch (Some attrs) (Attributes (samplingRule rule))"

text \<open>
  A cache refreshed with two rules: one named \<open>Default\<close> of priority 1 that declares an
  attribute, and a rule \<open>A\<close> of priority 2 that declares none.
\<close>

definition defaultFirstCache :: "unit RuleCache" where
  "defaultFirstCache =
     updateRules (newRuleCache () 0)
       [newSamplingRuleApplier (exampleRule ''A'' 2),
        newSamplingRuleApplier ((exampleRule ''Default'' 1)\<lparr>Attributes := Some [(''k'', ''v'')]\<rparr>)]
       1"

text \<open>
  A cache whose two appliers share the rule name \<open>X\<close>; the first has served requests. It is
  what \<open>updateRules\<close> makes of two rules of that name, after some requests.
\<close>

definition duplicateNameCache :: "unit RuleCache" where
  "duplicateNameCache =
     \<lparr>ruleAppliers =
        [(newSamplingRuleApplier (exampleRule ''X'' 1))
           \<lparr>statistics := \<lparr>RequestCount = 9, SampleCount = 4, BorrowCount = 1\<rparr>\<rparr>,
         newSamplingRuleApplier (exampleRule ''X'' 2)],
      lastUpdatedEpochMillis = 5000, samplerResource = ()\<rparr>"


text \<open>
  Samplers for the examples of the fallback sampler. The limiter, seen within one second,
  holds the number of requests it may still grant; the fixed-rate sampler decides by the
  trace id alone.
\<close>

definition exampleLimiterShouldSample ::
  "nat \<Rightarrow> (unit, unit, unit) SamplingRequest \<Rightarrow> SamplingResult \<times> nat" where
  "exampleLimiterShouldSample granted request =
     (if granted > 0
      then (\<lparr>decision = RECORD_AND_SAMPLED, resultAttributes = None\<rparr>, granted - 1)
      else (\<lparr>decision = NOT_RECORD, resultAttributes = None\<rparr>, 0))"

definition exampleFixedShouldSample :: "rat \<Rightarrow> unit \<Rightarrow> string \<Rightarrow> SamplingResult" where
  "exampleFixedShouldSample ratio ctx trace =
     \<lparr>decision = (if trace = ''0000'' then RECORD_AND_SAMPLED else NOT_RECORD),
      resultAttributes = None\<rparr>"

definition exampleRequest :: "string \<Rightarrow> (unit, unit, unit) SamplingRequest" where
  "exampleRequest trace =
     \<lparr>requestContext = (), traceId = trace, spanName = ''name'', spanKind = (),
      attributes = [], links = []\<rparr>"

text \<open>A cache of two appliers, the first of which has served requests.\<close>

definition twoRuleCache :: "unit RuleCache" where
  "twoRuleCache =
     \<lparr>ruleAppliers =
        [(newSamplingRuleApplier (exampleRule ''A'' 1))
           \<lparr>statistics := \<lparr>RequestCount = 9, SampleCount = 4, BorrowCount = 1\<rparr>\<rparr>,
         newSamplingRuleApplier (exampleRule ''B'' 2)],
      lastUpdatedEpochMillis = 5000, samplerResource = ()\<rparr>"

section \<open>Wildcard matching: the regular expression of a pattern\<close>

lemma replaceChar_append: "replaceChar c r (a @ b) = replaceChar c r a @ replaceChar c r b"
  by (simp add: replaceChar_def)

lemma convertPatternToRegExp_Nil: "convertPatternToRegExp [] = []"
  by (simp add: convertPatternToRegExp_def escapeRegExp_def replaceChar_def)

lemma convertPatternToRegExp_Cons:
  "convertPatternToRegExp (c # p) = convertChar c @ convertPatternToRegExp p"
  by (simp add: convertPatternToRegExp_def escapeRegExp_def replaceChar_append convertChar_def)
     (simp add: replaceChar_def escapedChars_def)

text \<open>A \<open>*\<close> of the regular expression always follows the \<open>.\<close> it was written with.\<close>

lemma parseRegExp_convertChar:
  "rest = [] \<or> hd rest \<noteq> CHR ''*'' \<Longrightarrow>
   parseRegExp (convertChar c @ rest) = map_option ((#) (termOfChar c)) (parseRegExp rest)"
  by (cases rest) (auto simp: convertChar_def termOfChar_def escapedChars_def syntaxChars_def)

lemma convertPatternToRegExp_head:
  "convertPatternToRegExp p @ ''$'' = [] \<or> hd (convertPatternToRegExp p @ ''$'') \<noteq> CHR ''*''"
  by (cases p) (simp_all add: convertPatternToRegExp_Nil convertPatternToRegExp_Cons convertChar_def)

lemma parseRegExp_convert:
  "parseRegExp (convertPatternToRegExp p @ ''$'') = Some (map termOfChar p @ [InputEnd])"
proof (induction p)
  case Nil
  show ?case by (simp add: convertPatternToRegExp_Nil syntaxChars_def)
next
  case (Cons c p)
  have "parseRegExp (convertChar c @ (convertPatternToRegExp p @ ''$'')) =
        map_option ((#) (termOfChar c)) (parseRegExp (convertPatternToRegExp p @ ''$''))"
    by (rule parseRegExp_convertChar) (rule convertPatternToRegExp_head)
  with Cons show ?case by (simp add: convertPatternToRegExp_Cons)
qed

lemma parseRegExp_anchored:
  "parseRegExp (CHR ''^'' # convertPatternToRegExp p @ ''$'') =
     Some (InputStart # map termOfChar p @ [InputEnd])"
  using parseRegExp_convert [of p] by (simp add: syntaxChars_def)

lemma searchFrom_InputStart_False: "searchFrom (InputStart # ts) False s = False"
  by (induction s) simp_all

lemma searchFrom_InputStart: "searchFrom (InputStart # ts) True s = matchHere ts True s"
  by (cases s) (simp_all add: searchFrom_InputStart_False)

lemma stringMatch_anchored:
  "stringMatch t (anchored (convertPatternToRegExp p)) =
     Some (matchHere (map termOfChar p @ [InputEnd]) True t)"
  by (simp add: stringMatch_def anchored_def parseRegExp_anchored searchFrom_InputStart
      del: parseRegExp.simps)

text \<open>
  \<open>wildcardMatch\<close> always has a result: the regular expression it builds is one the
  embedding reads.
\<close>

lemma wildcardMatch_total: "\<exists>b. wildcardMatchResult pattern text = Some b"
  by (auto simp add: wildcardMatchResult_def stringMatch_anchored split: option.splits)

lemma wildcardMatch_regexp:
  "p \<noteq> [] \<Longrightarrow> p \<noteq> ''*'' \<Longrightarrow>
   wildcardMatch (Some p) (Some (StringValue t)) =
     matchHere (map termOfChar (toLowerCase p) @ [InputEnd]) True (toLowerCase t)"
  by (simp add: wildcardMatch_def wildcardMatchResult_def stringMatch_anchored)

lemma matchHere_literal: "matchHere (map Literal p @ [InputEnd]) b s = (s = p)"
proof (induction p arbitrary: s b)
  case Nil
  show ?case by simp
next
  case (Cons c p)
  show ?case by (cases s) (auto simp: Cons.IH)
qed

lemma lowerChar_star: "CHR ''*'' = lowerChar c \<longleftrightarrow> c = CHR ''*''"
  and lowerChar_question: "CHR ''?'' = lowerChar c \<longleftrightarrow> c = CHR ''?''"
  by (auto simp add: lowerChar_def upperCaseChars_def lowerCaseChars_def)

lemma termOfChar_literal:
  "CHR ''*'' \<notin> set p \<Longrightarrow> CHR ''?'' \<notin> set p \<Longrightarrow> map termOfChar p = map Literal p"
  by (induction p) (auto simp: termOfChar_def)

lemma toLowerCase_literal:
  "CHR ''*'' \<notin> set p \<Longrightarrow> CHR ''*'' \<notin> set (toLowerCase p)"
  "CHR ''?'' \<notin> set p \<Longrightarrow> CHR ''?'' \<notin> set (toLowerCase p)"
  by (induction p) (auto simp add: toLowerCase_def lowerChar_star lowerChar_question)

section \<open>Wildcard matching: the claims\<close>

text \<open>
  C4. For a literal pattern \<open>P\<close> (no \<open>*\<close>, no \<open>?\<close>) and a string \<open>V\<close>, \<open>wildcardMatch(P, V)\<close> is
  true if and only if \<open>P\<close> and \<open>V\<close> are equal without regard to case, that is, their
  lower-case forms are equal. The strings are any strings of code units below 256.
\<close>

theorem wildcardMatch_literal:
  assumes "CHR ''*'' \<notin> set P" and "CHR ''?'' \<notin> set P"
  shows "wildcardMatch (Some P) (Some (StringValue V)) = (toLowerCase P = toLowerCase V)"
proof (cases "P = []")
  case True
  then show ?thesis
    by (auto simp: wildcardMatch_def wildcardMatchResult_def toLowerCase_def)
next
  case False
  moreover from assms have "P \<noteq> ''*''" by auto
  ultimately have "wildcardMatch (Some P) (Some (StringValue V)) =
      matchHere (map termOfChar (toLowerCase P) @ [InputEnd]) True (toLowerCase V)"
    by (rule wildcardMatch_regexp)
  also have "map termOfChar (toLowerCase P) = map Literal (toLowerCase P)"
    using assms by (intro termOfChar_literal toLowerCase_literal)
  finally show ?thesis by (auto simp: matchHere_literal)
qed

theorem wildcardMatch_literal_witness:
  "CHR ''*'' \<notin> set ''Get.Item'' \<and> CHR ''?'' \<notin> set ''Get.Item'' \<and>
   wildcardMatch (Some ''Get.Item'') (Some (StringValue ''GET.item'')) \<and>
   \<not> wildcardMatch (Some ''Get.Item'') (Some (StringValue ''GETxitem'')) \<and>
   wildcardMatch (Some [CHR 0xC9, CHR ''t'']) (Some (StringValue [CHR 0xE9, CHR ''T''])) \<and>
   \<not> wildcardMatch (Some [CHR 0xD7]) (Some (StringValue [CHR 0xF7]))"
proof -
  have star: "CHR ''*'' \<notin> set ''Get.Item''" and question: "CHR ''?'' \<notin> set ''Get.Item''"
    by simp_all
  have star': "CHR ''*'' \<notin> set [CHR 0xC9, CHR ''t'']"
    and question': "CHR ''?'' \<notin> set [CHR 0xC9, CHR ''t'']"
    and star'': "CHR ''*'' \<notin> set [CHR 0xD7]" and question'': "CHR ''?'' \<notin> set [CHR 0xD7]"
    by simp_all
  show ?thesis
    using wildcardMatch_literal [OF star question, of "''GET.item''"]
      wildcardMatch_literal [OF star question, of "''GETxitem''"]
      wildcardMatch_literal [OF star' question', of "[CHR 0xE9, CHR ''T'']"]
      wildcardMatch_literal [OF star'' question'', of "[CHR 0xF7]"]
    by (simp add: toLowerCase_def lowerChar_def upperCaseChars_def lowerCaseChars_def)
qed

text \<open>
  C5, as the code has it. For every pattern other than \<open>"*"\<close>, \<open>wildcardMatch\<close> is false
  whenever the value is absent or not a string. (The pattern \<open>"*"\<close> is tested first and
  matches every value, also an absent one.)
\<close>

theorem wildcardMatch_not_string:
  assumes "pattern \<noteq> Some ''*''" and "\<forall>s. text \<noteq> Some (StringValue s)"
  shows "\<not> wildcardMatch pattern text"
proof -
  from assms(2) have "asString text = None"
    by (cases "text" rule: asString.cases) simp_all
  with assms(1) show ?thesis
    by (simp add: wildcardMatch_def wildcardMatchResult_def split: option.splits)
qed

theorem wildcardMatch_not_string_witness:
  "Some ''a?c'' \<noteq> Some ''*'' \<and> (\<forall>s. Some (NumberValue 7) \<noteq> Some (StringValue s)) \<and>
   \<not> wildcardMatch (Some ''a?c'') (Some (NumberValue 7)) \<and>
   \<not> wildcardMatch (Some ''a?c'') None \<and> \<not> wildcardMatch None None"
proof -
  have p: "Some ''a?c'' \<noteq> Some ''*''" and n: "(None :: string option) \<noteq> Some ''*''"
    by simp_all
  have v: "\<forall>s. Some (NumberValue 7) \<noteq> Some (StringValue s)"
    and u: "\<forall>s. None \<noteq> Some (StringValue s)"
    by simp_all
  show ?thesis
    using wildcardMatch_not_string [OF p v] wildcardMatch_not_string [OF p u]
      wildcardMatch_not_string [OF n u] v
    by simp
qed

text \<open>
  C5, as stated, fails at the pattern \<open>"*"\<close>: it matches the absent value and a number.
\<close>

theorem wildcardMatch_star_absent:
  "wildcardMatch (Some ''*'') None \<and> wildcardMatch (Some ''*'') (Some (NumberValue 7))"
  by (simp add: wildcardMatch_def wildcardMatchResult_def)

text \<open>
  C6. \<open>wildcardMatch("*", x)\<close> is true for every value \<open>x\<close>, absent and non-string values
  included. The empty pattern matches the empty string and nothing else:
  \<open>wildcardMatch("", v)\<close> is true exactly when \<open>v\<close> is the empty string.
\<close>

theorem wildcardMatch_star_and_empty:
  "wildcardMatch (Some ''*'') x \<and>
   wildcardMatch (Some []) (Some (StringValue [])) \<and>
   wildcardMatch (Some []) (Some (StringValue v)) = (v = []) \<and>
   wildcardMatch (Some []) x = (x = Some (StringValue []))"
proof -
  have "wildcardMatch (Some []) x = (x = Some (StringValue []))"
    by (cases x rule: asString.cases)
       (auto simp: wildcardMatch_def wildcardMatchResult_def)
  then show ?thesis
    by (simp add: wildcardMatch_def wildcardMatchResult_def)
qed

section \<open>Attribute matching: the claim\<close>

lemma length_keys: "length (keys obj) = length obj"
  by (simp add: keys_def)

lemma find_key: "find (\<lambda>ruleKey. ruleKey = key) ks = (if key \<in> set ks then Some key else None)"
  by (induction ks) auto

lemma countMatches_filter:
  "countMatches ra attrs n = n + length (filter (declaredMatch ra) attrs)"
  by (induction attrs arbitrary: n) (auto simp: find_key declaredMatch_def)

text \<open>The keys of the candidate are distinct, so the count is the number of matched keys.\<close>

lemma matched_keys_card:
  assumes "distinct (keys attrs)"
  shows "card (fst ` set (filter (declaredMatch ra) attrs)) = length (filter (declaredMatch ra) attrs)"
proof -
  from assms have "distinct (map fst (filter (declaredMatch ra) attrs))"
    by (simp add: keys_def distinct_map_filter)
  then have "card (set (map fst (filter (declaredMatch ra) attrs))) =
             length (map fst (filter (declaredMatch ra) attrs))"
    by (rule distinct_card)
  then show ?thesis by simp
qed

lemma matched_keys_subset: "fst ` set (filter (declaredMatch ra) attrs) \<subseteq> set (keys ra)"
  by (auto simp: declaredMatch_def)

lemma map_of_entry: "distinct (keys ra) \<Longrightarrow> (k, p) \<in> set ra \<Longrightarrow> map_of ra k = Some p"
  by (simp add: keys_def)

lemma count_eq_iff_all:
  assumes "distinct (keys attrs)" and "distinct (keys ra)"
  shows "length (filter (declaredMatch ra) attrs) = length ra \<longleftrightarrow>
         (\<forall>(k, p) \<in> set ra. \<exists>v. (k, v) \<in> set attrs \<and> wildcardMatch (Some p) v)"
proof -
  let ?M = "fst ` set (filter (declaredMatch ra) attrs)"
  have "card (set (keys ra)) = length (keys ra)"
    using assms(2) by (rule distinct_card)
  then have cardK: "card (set (keys ra)) = length ra"
    by (simp only: length_keys)
  have "length (filter (declaredMatch ra) attrs) = length ra \<longleftrightarrow>
        card ?M = card (set (keys ra))"
    by (simp only: matched_keys_card [OF assms(1)] cardK)
  also have "\<dots> \<longleftrightarrow> ?M = set (keys ra)"
    using card_subset_eq [OF _ matched_keys_subset [of ra attrs]] by auto
  also have "\<dots> \<longleftrightarrow> (\<forall>k \<in> set (keys ra). k \<in> ?M)"
    using matched_keys_subset [of ra attrs] by auto
  also have "\<dots> \<longleftrightarrow> (\<forall>(k, p) \<in> set ra. \<exists>v. (k, v) \<in> set attrs \<and> wildcardMatch (Some p) v)"
  proof
    assume L: "\<forall>k \<in> set (keys ra). k \<in> ?M"
    show "\<forall>(k, p) \<in> set ra. \<exists>v. (k, v) \<in> set attrs \<and> wildcardMatch (Some p) v"
    proof clarify
      fix k p
      assume kp: "(k, p) \<in> set ra"
      then have "k \<in> set (keys ra)" by (force simp: keys_def)
      with L have "k \<in> ?M" by blast
      then obtain v where "(k, v) \<in> set attrs" and "declaredMatch ra (k, v)" by auto
      with map_of_entry [OF assms(2) kp]
      show "\<exists>v. (k, v) \<in> set attrs \<and> wildcardMatch (Some p) v"
        by (auto simp: declaredMatch_def)
    qed
  next
    assume R: "\<forall>(k, p) \<in> set ra. \<exists>v. (k, v) \<in> set attrs \<and> wildcardMatch (Some p) v"
    show "\<forall>k \<in> set (keys ra). k \<in> ?M"
    proof
      fix k
      assume k: "k \<in> set (keys ra)"
      then obtain p where kp: "(k, p) \<in> set ra" by (auto simp: keys_def)
      with R obtain v where v: "(k, v) \<in> set attrs" and "wildcardMatch (Some p) v" by blast
      with map_of_entry [OF assms(2) kp] k have "declaredMatch ra (k, v)"
        by (simp add: declaredMatch_def)
      with v show "k \<in> ?M" by force
    qed
  qed
  finally show ?thesis .
qed

text \<open>
  C3. \<open>attributeMatch(attrs, ruleAttrs)\<close> is true when \<open>ruleAttrs\<close> is absent or empty.
  Otherwise it is true exactly when every declared key of \<open>ruleAttrs\<close> is a key of \<open>attrs\<close>
  whose value wildcard-matches the pattern declared for it; so it is false for an absent
  candidate, and for a candidate that misses a declared key or has a value that does not
  match. The keys of an object are pairwise distinct.
\<close>

theorem attributeMatch_all_declared:
  assumes "distinct (keys attrs)" and "distinct (keys ra)"
  shows "attributeMatch candidate None \<and>
         attributeMatch candidate (Some []) \<and>
         (ra \<noteq> [] \<longrightarrow> \<not> attributeMatch None (Some ra)) \<and>
         (ra \<noteq> [] \<longrightarrow>
            attributeMatch (Some attrs) (Some ra) =
              (\<forall>(k, p) \<in> set ra. \<exists>v. (k, v) \<in> set attrs \<and> wildcardMatch (Some p) v))"
proof -
  have "attributeMatch (Some attrs) (Some ra) =
          (\<forall>(k, p) \<in> set ra. \<exists>v. (k, v) \<in> set attrs \<and> wildcardMatch (Some p) v)"
    if ne: "ra \<noteq> []"
  proof (cases "length (keys attrs) = 0 \<or> length (keys ra) > length (keys attrs)")
    case False
    with ne show ?thesis
      by (simp add: attributeMatch_def countMatches_filter length_keys count_eq_iff_all [OF assms])
  next
    case True
    have "length (filter (declaredMatch ra) attrs) \<noteq> length ra"
    proof
      assume eq: "length (filter (declaredMatch ra) attrs) = length ra"
      have "length (filter (declaredMatch ra) attrs) \<le> length attrs" by simp
      with eq True ne show False by (auto simp: length_keys)
    qed
    then have "\<not> (\<forall>(k, p) \<in> set ra. \<exists>v. (k, v) \<in> set attrs \<and> wildcardMatch (Some p) v)"
      by (simp add: count_eq_iff_all [OF assms])
    with True ne show ?thesis
      by (auto simp add: attributeMatch_def length_keys)
  qed
  then show ?thesis
    by (simp add: attributeMatch_def length_keys)
qed

text \<open>An instance: both declared keys are present with matching values.\<close>

lemmas wildcard_defs =
  wildcardMatch_def wildcardMatchResult_def stringMatch_def anchored_def
  convertPatternToRegExp_def escapeRegExp_def replaceChar_def escapedChars_def syntaxChars_def
  toLowerCase_def lowerChar_def upperCaseChars_def lowerCaseChars_def lineTerminator_def

theorem attributeMatch_all_declared_witness:
  "distinct (keys [(''abc'', Some (StringValue ''1234'')), (''http.method'', Some (StringValue ''GET''))]) \<and>
   distinct (keys [(''abc'', ''12*''), (''http.method'', ''get'')]) \<and>
   attributeMatch
     (Some [(''abc'', Some (StringValue ''1234'')), (''http.method'', Some (StringValue ''GET''))])
     (Some [(''abc'', ''12*''), (''http.method'', ''get'')])"
proof -
  have d1: "distinct (keys [(''abc'', Some (StringValue ''1234'')),
                            (''http.method'', Some (StringValue ''GET''))])"
    and d2: "distinct (keys [(''abc'', ''12*''), (''http.method'', ''get'')])"
    by (simp_all add: keys_def)
  from attributeMatch_all_declared [OF d1 d2] d1 d2 show ?thesis
    by (simp add: wildcard_defs)
qed

section \<open>The rule cache: order of the appliers and the matched rule\<close>

lemma compareRules_less: "compareRules a b < 0 \<longleftrightarrow> ruleKey a < ruleKey b"
  by (auto simp: compareRules_def ruleKey_def)

lemma set_insertSorted: "set (insertSorted cmp x ys) = insert x (set ys)"
  by (induction ys) auto

lemma mset_insertSorted: "mset (insertSorted cmp x ys) = add_mset x (mset ys)"
  by (induction ys) auto

lemma mset_fold_insertSorted: "mset (fold (insertSorted cmp) xs acc) = mset xs + mset acc"
  by (induction xs arbitrary: acc) (simp_all add: mset_insertSorted)

lemma mset_arraySort: "mset (arraySort cmp xs) = mset xs"
  by (simp add: arraySort_def mset_fold_insertSorted)

lemma set_arraySort: "set (arraySort cmp xs) = set xs"
  using mset_arraySort [of cmp xs] by (metis set_mset_mset)

lemma length_arraySort: "length (arraySort cmp xs) = length xs"
  using mset_arraySort [of cmp xs] by (metis size_mset)

lemma sorted_insertSorted:
  "sorted (map ruleKey ys) \<Longrightarrow> sorted (map ruleKey (insertSorted compareRules x ys))"
  by (induction ys) (auto simp: compareRules_less set_insertSorted)

lemma sorted_fold_insertSorted:
  "sorted (map ruleKey acc) \<Longrightarrow>
   sorted (map ruleKey (fold (insertSorted compareRules) xs acc))"
  by (induction xs arbitrary: acc) (simp_all add: sorted_insertSorted)

lemma sorted_sortRulesByPriority: "sorted (map ruleKey (sortRulesByPriority xs))"
  by (simp add: sortRulesByPriority_def arraySort_def sorted_fold_insertSorted)

text \<open>\<open>updateRules\<close> leaves the appliers in ascending order of (Priority, RuleName).\<close>

lemma updateRules_sorted: "sorted (map ruleKey (ruleAppliers (updateRules cache new now)))"
  by (simp add: updateRules_def sorted_sortRulesByPriority)

lemma find_sorted_least:
  "sorted (map key xs) \<Longrightarrow> find P xs = Some r \<Longrightarrow>
   r \<in> set xs \<and> P r \<and> (\<forall>a \<in> set xs. P a \<longrightarrow> key r \<le> key a)"
  by (induction xs) (auto split: if_splits)

text \<open>
  C1, as the code has it. In a cache whose appliers are in ascending order of
  (Priority, RuleName), as \<open>updateRules\<close> leaves them, \<open>getMatchedRule\<close> returns an applier of
  the cache that has the lowest (Priority, RuleName) among the appliers whose \<open>matches\<close>
  predicate is satisfied or whose name is \<open>Default\<close>; it returns none exactly when no
  applier is satisfied or named \<open>Default\<close>. An applier named \<open>Default\<close> thus takes precedence
  over every satisfied rule that sorts after it.
\<close>

theorem getMatchedRule_lowest_eligible:
  assumes "sorted (map ruleKey (ruleAppliers cache))"
  shows "case getMatchedRule matches cache attrs of
           None \<Rightarrow>
             \<forall>a \<in> set (ruleAppliers cache).
               \<not> matches a attrs (samplerResource cache) \<and>
               RuleName (samplingRule a) \<noteq> ''Default''
         | Some r \<Rightarrow>
             r \<in> set (ruleAppliers cache) \<and>
             (matches r attrs (samplerResource cache) \<or>
              RuleName (samplingRule r) = ''Default'') \<and>
             (\<forall>a \<in> set (ruleAppliers cache).
                matches a attrs (samplerResource cache) \<or>
                RuleName (samplingRule a) = ''Default'' \<longrightarrow> ruleKey r \<le> ruleKey a)"
proof (cases "getMatchedRule matches cache attrs")
  case None
  then have "\<forall>a \<in> set (ruleAppliers cache).
               \<not> matches a attrs (samplerResource cache) \<and>
               RuleName (samplingRule a) \<noteq> ''Default''"
    by (simp add: getMatchedRule_def find_None_iff)
  with None show ?thesis by simp
next
  case (Some r)
  then have "find (\<lambda>rule. matches rule attrs (samplerResource cache) \<or>
                  RuleName (samplingRule rule) = ''Default'') (ruleAppliers cache) = Some r"
    by (simp add: getMatchedRule_def)
  from find_sorted_least [OF assms this] Some show ?thesis by simp
qed

text \<open>
  The cache \<open>defaultFirstCache\<close> after its refresh: the applier named \<open>Default\<close>, of
  priority 1, comes first.
\<close>

lemma defaultFirstCache_appliers:
  "ruleAppliers defaultFirstCache =
     [newSamplingRuleApplier ((exampleRule ''Default'' 1)\<lparr>Attributes := Some [(''k'', ''v'')]\<rparr>),
      newSamplingRuleApplier (exampleRule ''A'' 2)]"
  by (simp add: defaultFirstCache_def updateRules_def sortRulesByPriority_def arraySort_def
      compareRules_def substituteOld_def oldRuleAppliersMap_def newRuleCache_def
      newSamplingRuleApplier_def exampleRule_def)

text \<open>An instance: a request that satisfies both appliers gets the first of them.\<close>

theorem getMatchedRule_lowest_eligible_witness:
  "sorted (map ruleKey (ruleAppliers defaultFirstCache)) \<and>
   getMatchedRule exampleMatches defaultFirstCache [(''k'', Some (StringValue ''v''))] =
     Some (newSamplingRuleApplier ((exampleRule ''Default'' 1)\<lparr>Attributes := Some [(''k'', ''v'')]\<rparr>)) \<and>
   ruleKey (newSamplingRuleApplier ((exampleRule ''Default'' 1)\<lparr>Attributes := Some [(''k'', ''v'')]\<rparr>))
     \<le> ruleKey (newSamplingRuleApplier (exampleRule ''A'' 2))"
proof -
  have s: "sorted (map ruleKey (ruleAppliers defaultFirstCache))"
    by (simp add: defaultFirstCache_appliers ruleKey_def newSamplingRuleApplier_def exampleRule_def)
  have g: "getMatchedRule exampleMatches defaultFirstCache [(''k'', Some (StringValue ''v''))] =
     Some (newSamplingRuleApplier ((exampleRule ''Default'' 1)\<lparr>Attributes := Some [(''k'', ''v'')]\<rparr>))"
    by (simp add: getMatchedRule_def defaultFirstCache_appliers newSamplingRuleApplier_def
        exampleRule_def)
  have e: "exampleMatches (newSamplingRuleApplier (exampleRule ''A'' 2))
             [(''k'', Some (StringValue ''v''))] ()"
    by (simp add: exampleMatches_def attributeMatch_def newSamplingRuleApplier_def exampleRule_def)
  from getMatchedRule_lowest_eligible [OF s, of exampleMatches "[(''k'', Some (StringValue ''v''))]"]
  show ?thesis
    by (simp add: s g e defaultFirstCache_appliers)
qed

text \<open>
  C1, as stated, fails in \<open>defaultFirstCache\<close>. For a request without attributes the
  predicate of \<open>A\<close> is satisfied and that of \<open>Default\<close> is not: the claim asks for \<open>A\<close>, and
  \<open>getMatchedRule\<close> returns the applier named \<open>Default\<close>, which comes first. For a request
  that satisfies both, the applier named \<open>Default\<close> is returned in preference to the
  satisfied rule \<open>A\<close>.
\<close>

theorem getMatchedRule_default_first:
  "getMatchedRule exampleMatches defaultFirstCache [] =
     Some (newSamplingRuleApplier ((exampleRule ''Default'' 1)\<lparr>Attributes := Some [(''k'', ''v'')]\<rparr>)) \<and>
   claimedMatchedRule exampleMatches defaultFirstCache [] =
     Some (newSamplingRuleApplier (exampleRule ''A'' 2)) \<and>
   exampleMatches (newSamplingRuleApplier (exampleRule ''A'' 2)) [] () \<and>
   \<not> exampleMatches
       (newSamplingRuleApplier ((exampleRule ''Default'' 1)\<lparr>Attributes := Some [(''k'', ''v'')]\<rparr>)) [] () \<and>
   getMatchedRule exampleMatches defaultFirstCache [(''k'', Some (StringValue ''v''))] =
     Some (newSamplingRuleApplier ((exampleRule ''Default'' 1)\<lparr>Attributes := Some [(''k'', ''v'')]\<rparr>)) \<and>
   exampleMatches (newSamplingRuleApplier (exampleRule ''A'' 2)) [(''k'', Some (StringValue ''v''))] () \<and>
   RuleName (samplingRule (newSamplingRuleApplier (exampleRule ''A'' 2))) \<noteq> ''Default''"
  by (simp add: getMatchedRule_def claimedMatchedRule_def defaultFirstCache_appliers
      exampleMatches_def attributeMatch_def keys_def newSamplingRuleApplier_def exampleRule_def)

section \<open>The rule cache: refreshing the rules\<close>

lemma attributesEqual_refl: "attributesEqual a a"
  by (simp add: attributesEqual_def split: option.splits)

lemma attributesEqual_sym: "attributesEqual a b \<Longrightarrow> attributesEqual b a"
  by (auto simp: attributesEqual_def split: option.splits)

lemma attributesEqual_trans: "attributesEqual a b \<Longrightarrow> attributesEqual b c \<Longrightarrow> attributesEqual a c"
  by (auto simp: attributesEqual_def split: option.splits)

text \<open>Structural equality is an equivalence of rules, and equal rules have one name.\<close>

lemma equals_refl: "equals r (Some r)"
  by (simp add: equals_def attributesEqual_refl)

lemma equals_sym: "equals a (Some b) \<Longrightarrow> equals b (Some a)"
  by (simp add: equals_def attributesEqual_sym)

lemma equals_trans: "equals a (Some b) \<Longrightarrow> equals b (Some c) \<Longrightarrow> equals a (Some c)"
  using attributesEqual_trans [of "Attributes a" "Attributes b" "Attributes c"]
  by (simp add: equals_def)

lemma equals_RuleName: "equals a (Some b) \<Longrightarrow> RuleName a = RuleName b"
  by (simp add: equals_def)

lemma equals_Priority: "equals a (Some b) \<Longrightarrow> Priority a = Priority b"
  by (simp add: equals_def)

lemma equals_None: "\<not> equals a None"
  by (simp add: equals_def)

text \<open>The order in which the attributes of a rule are listed does not matter; a pattern does.\<close>

lemma equals_attribute_order:
  "equals ((exampleRule ''A'' 1)\<lparr>Attributes := Some [(''k'', ''v''), (''l'', ''w'')]\<rparr>)
     (Some ((exampleRule ''A'' 1)\<lparr>Attributes := Some [(''l'', ''w''), (''k'', ''v'')]\<rparr>)) \<and>
   \<not> equals ((exampleRule ''A'' 1)\<lparr>Attributes := Some [(''k'', ''v'')]\<rparr>)
       (Some ((exampleRule ''A'' 1)\<lparr>Attributes := Some [(''k'', ''x'')]\<rparr>))"
  by (auto simp add: equals_def attributesEqual_def exampleRule_def)

lemma namedMap_Nil: "namedMap [] m = m"
  and namedMap_Cons: "namedMap (x # xs) m = namedMap xs (m(ruleName x \<mapsto> x))"
  by (simp_all add: namedMap_def ruleName_def)

lemma namedMap_notin: "n \<notin> ruleName ` set xs \<Longrightarrow> namedMap xs m n = m n"
  by (induction xs arbitrary: m) (auto simp: namedMap_Nil namedMap_Cons)

lemma namedMap_in:
  "distinct (map ruleName xs) \<Longrightarrow> x \<in> set xs \<Longrightarrow> namedMap xs m (ruleName x) = Some x"
proof (induction xs arbitrary: m)
  case Nil
  then show ?case by simp
next
  case (Cons y ys)
  show ?case
  proof (cases "x \<in> set ys")
    case True
    with Cons show ?thesis by (simp add: namedMap_Cons)
  next
    case False
    with Cons.prems have "x = y" and "ruleName y \<notin> ruleName ` set ys" by auto
    then show ?thesis by (simp add: namedMap_Cons namedMap_notin)
  qed
qed

lemma namedMap_Some:
  "namedMap xs m n = Some x \<Longrightarrow> (x \<in> set xs \<and> ruleName x = n) \<or> m n = Some x"
  by (induction xs arbitrary: m) (fastforce simp: namedMap_Nil namedMap_Cons split: if_splits)+

lemma oldRuleAppliersMap_namedMap: "oldRuleAppliersMap xs = namedMap xs Map.empty"
  by (simp add: oldRuleAppliersMap_def namedMap_def)

lemma oldRuleAppliersMap_Some: "oldRuleAppliersMap old n = Some x \<Longrightarrow> x \<in> set old"
  using namedMap_Some [of old Map.empty n x] by (simp add: oldRuleAppliersMap_namedMap)

text \<open>Among appliers of distinct names, an incoming rule equals the rule of at most one.\<close>

lemma find_same_rule:
  assumes "distinct (map ruleName old)" and "x \<in> set old"
    and "equals (samplingRule n) (Some (samplingRule x))"
  shows "find (\<lambda>oldRule. equals (samplingRule n) (Some (samplingRule oldRule))) old = Some x"
proof -
  let ?P = "\<lambda>oldRule. equals (samplingRule n) (Some (samplingRule oldRule))"
  have "\<exists>y. find ?P old = Some y"
    using assms(2,3) by (cases "find ?P old") (auto simp: find_None_iff)
  then obtain y where y: "find ?P old = Some y" ..
  then have "y \<in> set old" and "?P y"
    by (auto simp: find_Some_iff)
  with assms(3) have "y \<in> set old" and "ruleName y = ruleName x"
    using equals_RuleName [of "samplingRule n" "samplingRule y"]
      equals_RuleName [of "samplingRule n" "samplingRule x"]
    by (simp_all add: ruleName_def)
  with assms(1,2) have "y = x" by (meson distinct_map inj_on_def)
  with y show ?thesis by simp
qed

lemma substituteOld_retainOrAdopt:
  assumes "distinct (map ruleName old)"
  shows "substituteOld (oldRuleAppliersMap old) n = retainOrAdopt old n"
proof (cases "find (\<lambda>oldRule. equals (samplingRule n) (Some (samplingRule oldRule))) old")
  case None
  then have no: "\<And>x. x \<in> set old \<Longrightarrow> \<not> equals (samplingRule n) (Some (samplingRule x))"
    by (auto simp: find_None_iff)
  have "\<not> equals (samplingRule n)
            (map_option samplingRule (oldRuleAppliersMap old (RuleName (samplingRule n))))"
  proof (cases "oldRuleAppliersMap old (RuleName (samplingRule n))")
    case None
    then show ?thesis by (simp add: equals_None)
  next
    case (Some x)
    then have "x \<in> set old" by (rule oldRuleAppliersMap_Some)
    with no Some show ?thesis by simp
  qed
  then have "substituteOld (oldRuleAppliersMap old) n = n"
    by (simp add: substituteOld_def Let_def)
  with None show ?thesis by (simp add: retainOrAdopt_def)
next
  case (Some x)
  then have x: "x \<in> set old" and r: "equals (samplingRule n) (Some (samplingRule x))"
    by (auto simp: find_Some_iff)
  from r have "ruleName x = RuleName (samplingRule n)"
    using equals_RuleName [of "samplingRule n" "samplingRule x"] by (simp add: ruleName_def)
  with namedMap_in [OF assms x, of Map.empty]
  have "oldRuleAppliersMap old (RuleName (samplingRule n)) = Some x"
    by (simp add: oldRuleAppliersMap_namedMap)
  with r Some show ?thesis
    by (simp add: substituteOld_def Let_def retainOrAdopt_def)
qed

lemma updateRules_mset:
  assumes "distinct (map ruleName (ruleAppliers cache))"
  shows "mset (ruleAppliers (updateRules cache new now)) =
         mset (map (retainOrAdopt (ruleAppliers cache)) new)"
proof -
  have "substituteOld (oldRuleAppliersMap (ruleAppliers cache)) = retainOrAdopt (ruleAppliers cache)"
    by (rule ext) (rule substituteOld_retainOrAdopt [OF assms])
  then show ?thesis
    by (simp add: updateRules_def sortRulesByPriority_def mset_arraySort)
qed

lemma distinct_of_map: "distinct (map f xs) \<Longrightarrow> distinct xs"
  by (simp add: distinct_map)

lemma distinct_ruleKey: "distinct (map ruleName xs) \<Longrightarrow> distinct (map ruleKey xs)"
  by (induction xs) (auto simp: ruleName_def ruleKey_def)

text \<open>Two lists in the order of the cache with the same elements, of distinct keys, are equal.\<close>

lemma sorted_same_mset:
  assumes "sorted (map ruleKey xs)" and "sorted (map ruleKey ys)" and "mset xs = mset ys"
    and "distinct (map ruleKey ys)"
  shows "xs = ys"
proof -
  from assms(3) have m: "mset (map ruleKey xs) = mset (map ruleKey ys)" by simp
  have "sort (map ruleKey ys) = map ruleKey xs"
    using m assms(1) by (rule properties_for_sort)
  moreover have "sort (map ruleKey ys) = map ruleKey ys"
    using assms(2) by (rule sorted_sort_id)
  ultimately have k: "map ruleKey xs = map ruleKey ys" by simp
  from assms(3) have "set xs = set ys" by (rule mset_eq_setD)
  moreover from assms(4) have "inj_on ruleKey (set ys)" by (simp add: distinct_map)
  ultimately have "inj_on ruleKey (set xs \<union> set ys)" by simp
  with k show ?thesis by (rule map_inj_on)
qed

text \<open>
  When the incoming rules and the old rules are the same rules, each once, the incoming
  appliers are replaced by the old appliers, each once.
\<close>

lemma retainOrAdopt_same_rules:
  assumes d: "distinct (map ruleName old)" and dn: "distinct (map ruleName new)"
    and covered: "\<forall>n \<in> set new. \<exists>x \<in> set old. equals (samplingRule n) (Some (samplingRule x))"
    and all: "\<forall>x \<in> set old. \<exists>n \<in> set new. equals (samplingRule n) (Some (samplingRule x))"
  shows "mset (map (retainOrAdopt old) new) = mset old"
proof -
  have keep: "retainOrAdopt old n = x"
    if "x \<in> set old" "equals (samplingRule n) (Some (samplingRule x))" for n x
    using find_same_rule [OF d that] by (simp add: retainOrAdopt_def)
  have name: "ruleName (retainOrAdopt old n) = ruleName n" if "n \<in> set new" for n
  proof -
    from covered that obtain x where x: "x \<in> set old"
      and e: "equals (samplingRule n) (Some (samplingRule x))" by blast
    from e have "ruleName n = ruleName x"
      using equals_RuleName [of "samplingRule n" "samplingRule x"] by (simp add: ruleName_def)
    with keep [OF x e] show ?thesis by simp
  qed
  then have "map ruleName (map (retainOrAdopt old) new) = map ruleName new"
    by simp
  with dn have "distinct (map ruleName (map (retainOrAdopt old) new))"
    by (simp only:)
  then have dist: "distinct (map (retainOrAdopt old) new)"
    by (rule distinct_of_map)
  have "set (map (retainOrAdopt old) new) = set old"
  proof
    show "set (map (retainOrAdopt old) new) \<subseteq> set old"
      using covered keep by fastforce
    show "set old \<subseteq> set (map (retainOrAdopt old) new)"
    proof
      fix x
      assume x: "x \<in> set old"
      with all obtain n where n: "n \<in> set new"
        and e: "equals (samplingRule n) (Some (samplingRule x))" by blast
      from keep [OF x e] n show "x \<in> set (map (retainOrAdopt old) new)" by force
    qed
  qed
  moreover from d have "distinct old" by (rule distinct_of_map)
  ultimately show ?thesis
    using dist by (simp only: set_eq_iff_mset_eq_distinct)
qed

text \<open>
  C2, as the code has it. In a cache in which no two appliers share a rule name,
  \<open>updateRules\<close> puts in the place of every incoming applier the old applier whose rule is
  structurally identical to the incoming rule (so of the same name), when there is one,
  and adopts the incoming applier otherwise (its rule changed, or its name is new): the
  new appliers are these, in sorted order. An old applier that is retained is the old
  instance, statistics and sampler state included; if every incoming rule is identical to
  an old one, only old instances remain. Applying the rules of the cache again, each once
  and in any order, to a cache in sorted order leaves the list of appliers as it is.
\<close>

theorem updateRules_retains_unchanged:
  assumes "distinct (map ruleName (ruleAppliers cache))"
  shows "mset (ruleAppliers (updateRules cache new now)) =
           mset (map (retainOrAdopt (ruleAppliers cache)) new) \<and>
         (\<forall>n \<in> set new. \<forall>x \<in> set (ruleAppliers cache).
            equals (samplingRule n) (Some (samplingRule x)) \<longrightarrow>
            x \<in> set (ruleAppliers (updateRules cache new now))) \<and>
         (\<forall>n \<in> set new.
            (\<forall>x \<in> set (ruleAppliers cache).
               \<not> equals (samplingRule n) (Some (samplingRule x))) \<longrightarrow>
            n \<in> set (ruleAppliers (updateRules cache new now))) \<and>
         ((\<forall>n \<in> set new. \<exists>x \<in> set (ruleAppliers cache).
             equals (samplingRule n) (Some (samplingRule x))) \<longrightarrow>
            set (ruleAppliers (updateRules cache new now)) \<subseteq> set (ruleAppliers cache)) \<and>
         (sorted (map ruleKey (ruleAppliers cache)) \<and> distinct (map ruleName new) \<and>
          (\<forall>n \<in> set new. \<exists>x \<in> set (ruleAppliers cache).
             equals (samplingRule n) (Some (samplingRule x))) \<and>
          (\<forall>x \<in> set (ruleAppliers cache). \<exists>n \<in> set new.
             equals (samplingRule n) (Some (samplingRule x))) \<longrightarrow>
            ruleAppliers (updateRules cache new now) = ruleAppliers cache)"
proof -
  let ?old = "ruleAppliers cache"
  let ?res = "ruleAppliers (updateRules cache new now)"
  have M: "mset ?res = mset (map (retainOrAdopt ?old) new)"
    using assms by (rule updateRules_mset)
  then have S: "set ?res = retainOrAdopt ?old ` set new"
    by (metis set_mset_mset set_map)
  have keep: "retainOrAdopt ?old n = x"
    if "x \<in> set ?old" "equals (samplingRule n) (Some (samplingRule x))" for n x
    using find_same_rule [OF assms that] by (simp add: retainOrAdopt_def)
  have adopt: "retainOrAdopt ?old n = n"
    if "\<forall>x \<in> set ?old. \<not> equals (samplingRule n) (Some (samplingRule x))" for n
  proof -
    from that
    have "find (\<lambda>oldRule. equals (samplingRule n) (Some (samplingRule oldRule))) ?old = None"
      by (simp add: find_None_iff)
    then show ?thesis by (simp add: retainOrAdopt_def)
  qed
  have 1: "\<forall>n \<in> set new. \<forall>x \<in> set ?old.
             equals (samplingRule n) (Some (samplingRule x)) \<longrightarrow> x \<in> set ?res"
    using keep S by blast
  have 2: "\<forall>n \<in> set new.
             (\<forall>x \<in> set ?old. \<not> equals (samplingRule n) (Some (samplingRule x))) \<longrightarrow>
             n \<in> set ?res"
    using adopt S by (metis imageI)
  have 3: "(\<forall>n \<in> set new. \<exists>x \<in> set ?old. equals (samplingRule n) (Some (samplingRule x))) \<longrightarrow>
             set ?res \<subseteq> set ?old"
    using keep S by fastforce
  have 4: "?res = ?old"
    if s: "sorted (map ruleKey ?old)" and dn: "distinct (map ruleName new)"
      and covered: "\<forall>n \<in> set new. \<exists>x \<in> set ?old.
                      equals (samplingRule n) (Some (samplingRule x))"
      and all: "\<forall>x \<in> set ?old. \<exists>n \<in> set new.
                  equals (samplingRule n) (Some (samplingRule x))"
  proof -
    have "mset ?res = mset ?old"
      using M retainOrAdopt_same_rules [OF assms dn covered all] by simp
    with updateRules_sorted [of cache new now] s distinct_ruleKey [OF assms]
    show ?thesis by (intro sorted_same_mset)
  qed
  from M 1 2 3 4 show ?thesis by blast
qed

text \<open>
  An instance: the rules of \<open>twoRuleCache\<close> arrive again with fresh appliers, in another
  order; the appliers stay, with the statistics of \<open>A\<close>. A rule \<open>A\<close> of another priority
  is adopted.
\<close>

theorem updateRules_retains_unchanged_witness:
  "distinct (map ruleName (ruleAppliers twoRuleCache)) \<and>
   ruleAppliers (updateRules twoRuleCache
       [newSamplingRuleApplier (exampleRule ''B'' 2), newSamplingRuleApplier (exampleRule ''A'' 1)]
       7000) = ruleAppliers twoRuleCache \<and>
   statistics (hd (ruleAppliers (updateRules twoRuleCache
       [newSamplingRuleApplier (exampleRule ''B'' 2), newSamplingRuleApplier (exampleRule ''A'' 1)]
       7000))) = \<lparr>RequestCount = 9, SampleCount = 4, BorrowCount = 1\<rparr> \<and>
   newSamplingRuleApplier (exampleRule ''A'' 3) \<in>
     set (ruleAppliers (updateRules twoRuleCache [newSamplingRuleApplier (exampleRule ''A'' 3)] 7000))"
proof -
  let ?new = "[newSamplingRuleApplier (exampleRule ''B'' 2), newSamplingRuleApplier (exampleRule ''A'' 1)]"
  have d: "distinct (map ruleName (ruleAppliers twoRuleCache))"
    by (simp add: twoRuleCache_def ruleName_def newSamplingRuleApplier_def exampleRule_def)
  have s: "sorted (map ruleKey (ruleAppliers twoRuleCache))"
    by (simp add: twoRuleCache_def ruleKey_def newSamplingRuleApplier_def exampleRule_def)
  have dn: "distinct (map ruleName ?new)"
    by (simp add: ruleName_def newSamplingRuleApplier_def exampleRule_def)
  have covered: "\<forall>n \<in> set ?new. \<exists>x \<in> set (ruleAppliers twoRuleCache).
                   equals (samplingRule n) (Some (samplingRule x))"
    by (simp add: twoRuleCache_def newSamplingRuleApplier_def equals_refl)
  have all: "\<forall>x \<in> set (ruleAppliers twoRuleCache). \<exists>n \<in> set ?new.
               equals (samplingRule n) (Some (samplingRule x))"
    by (simp add: twoRuleCache_def newSamplingRuleApplier_def equals_refl)
  have c: "\<forall>x \<in> set (ruleAppliers twoRuleCache).
             \<not> equals (samplingRule (newSamplingRuleApplier (exampleRule ''A'' 3)))
                 (Some (samplingRule x))"
    by (simp add: twoRuleCache_def newSamplingRuleApplier_def exampleRule_def equals_def)
  from updateRules_retains_unchanged [OF d, of ?new 7000] s dn covered all
  have same: "ruleAppliers (updateRules twoRuleCache ?new 7000) = ruleAppliers twoRuleCache"
    by blast
  have n: "newSamplingRuleApplier (exampleRule ''A'' 3) \<in>
             set [newSamplingRuleApplier (exampleRule ''A'' 3)]"
    by simp
  from updateRules_retains_unchanged [OF d, of "[newSamplingRuleApplier (exampleRule ''A'' 3)]" 7000] c n
  have fresh: "newSamplingRuleApplier (exampleRule ''A'' 3) \<in>
     set (ruleAppliers (updateRules twoRuleCache [newSamplingRuleApplier (exampleRule ''A'' 3)] 7000))"
    by blast
  have "statistics (hd (ruleAppliers twoRuleCache)) =
          \<lparr>RequestCount = 9, SampleCount = 4, BorrowCount = 1\<rparr>"
    by (simp add: twoRuleCache_def)
  with d same fresh show ?thesis by simp
qed

text \<open>
  C2, as stated, fails in a cache with two appliers of one rule name. Both rules of
  \<open>duplicateNameCache\<close> arrive again, each structurally identical to the rule of an
  existing applier of its name. The object of old appliers holds only the later one under
  the name \<open>X\<close>, so the incoming applier of priority 1 is compared with the rule of
  priority 2 and adopted: the old applier of priority 1 is gone, and its statistics with
  it.
\<close>

theorem updateRules_duplicate_names:
  "equals (exampleRule ''X'' 1) (Some (samplingRule (ruleAppliers duplicateNameCache ! 0))) \<and>
   equals (exampleRule ''X'' 2) (Some (samplingRule (ruleAppliers duplicateNameCache ! 1))) \<and>
   statistics (ruleAppliers duplicateNameCache ! 0) =
     \<lparr>RequestCount = 9, SampleCount = 4, BorrowCount = 1\<rparr> \<and>
   ruleAppliers (updateRules duplicateNameCache
       [newSamplingRuleApplier (exampleRule ''X'' 1), newSamplingRuleApplier (exampleRule ''X'' 2)]
       7000) =
     [newSamplingRuleApplier (exampleRule ''X'' 1), newSamplingRuleApplier (exampleRule ''X'' 2)] \<and>
   ruleAppliers duplicateNameCache ! 0 \<notin>
     set (ruleAppliers (updateRules duplicateNameCache
       [newSamplingRuleApplier (exampleRule ''X'' 1), newSamplingRuleApplier (exampleRule ''X'' 2)]
       7000)) \<and>
   statistics (hd (ruleAppliers (updateRules duplicateNameCache
       [newSamplingRuleApplier (exampleRule ''X'' 1), newSamplingRuleApplier (exampleRule ''X'' 2)]
       7000))) = \<lparr>RequestCount = 0, SampleCount = 0, BorrowCount = 0\<rparr>"
  by (simp add: duplicateNameCache_def updateRules_def sortRulesByPriority_def arraySort_def
      compareRules_def substituteOld_def oldRuleAppliersMap_def objectPrototypeNames_def
      equals_def attributesEqual_def newSamplingRuleApplier_def exampleRule_def)

section \<open>The rule cache: targets\<close>

lemma appliedIntervals_Nil: "appliedIntervals tm [] = []"
  by (simp add: appliedIntervals_def)

lemma appliedIntervals_Cons:
  "appliedIntervals tm (rule # rest) =
     (case map_of tm (RuleName (samplingRule rule)) of
        None \<Rightarrow> appliedIntervals tm rest
      | Some target \<Rightarrow>
          (case Interval target of
             None \<Rightarrow> appliedIntervals tm rest
           | Some interval \<Rightarrow>
               if interval \<noteq> 0 then interval # appliedIntervals tm rest
               else appliedIntervals tm rest))"
  by (simp add: appliedIntervals_def split: option.splits)

lemma appliedIntervals_nonzero: "0 \<notin> set (appliedIntervals tm rules)"
  by (auto simp: appliedIntervals_def split: option.splits)

lemma minWith_Nil: "minWith m [] = m"
  by (simp add: minWith_def split: option.splits)

lemma minWith_Cons:
  "minWith m (i # is) =
     minWith (case m of None \<Rightarrow> Some i | Some x \<Rightarrow> if x > i then Some i else Some x) is"
  by (cases "is = []") (auto simp: minWith_def min_def insert_commute split: option.splits)

text \<open>An inherited property carries no interval: only the entries of the map count.\<close>

lemma updateTargetsLoop_fst:
  "fst (updateTargetsLoop wt tm (rule # rest) m) =
     (case lookupTarget tm (RuleName (samplingRule rule)) of
        None \<Rightarrow> rule
      | Some t \<Rightarrow> wt rule t) #
     fst (updateTargetsLoop wt tm rest (stepMin tm rule m))"
  by (simp add: stepMin_def lookupTarget_def case_prod_beta Let_def split: option.splits)

lemma updateTargetsLoop_snd:
  "snd (updateTargetsLoop wt tm (rule # rest) m) =
     snd (updateTargetsLoop wt tm rest (stepMin tm rule m))"
  by (simp add: stepMin_def lookupTarget_def case_prod_beta Let_def split: option.splits)

lemma minWith_stepMin:
  "minWith m (appliedIntervals tm (rule # rest)) =
     minWith (stepMin tm rule m) (appliedIntervals tm rest)"
  by (simp add: appliedIntervals_Cons stepMin_def minWith_Cons split: option.splits)

lemma updateTargetsLoop_min:
  "snd (updateTargetsLoop wt tm rules m) = minWith m (appliedIntervals tm rules)"
proof (induction rules arbitrary: m)
  case Nil
  show ?case by (simp add: appliedIntervals_Nil minWith_Nil)
next
  case (Cons rule rest)
  show ?case
    by (simp only: updateTargetsLoop_snd minWith_stepMin Cons.IH)
qed

lemma updateTargetsLoop_length:
  "length (fst (updateTargetsLoop wt tm rules m)) = length rules"
  by (induction rules arbitrary: m)
     (simp_all add: updateTargetsLoop_fst del: updateTargetsLoop.simps(2))

lemma updateTargetsLoop_nth:
  "i < length rules \<Longrightarrow> lookupTarget tm (RuleName (samplingRule (rules ! i))) = None \<Longrightarrow>
   fst (updateTargetsLoop wt tm rules m) ! i = rules ! i"
proof (induction rules arbitrary: m i)
  case Nil
  then show ?case by simp
next
  case (Cons rule rest)
  show ?case
  proof (cases i)
    case 0
    with Cons.prems show ?thesis
      by (simp add: updateTargetsLoop_fst del: updateTargetsLoop.simps(2))
  next
    case (Suc j)
    with Cons.prems
    have "j < length rest" "lookupTarget tm (RuleName (samplingRule (rest ! j))) = None"
      by simp_all
    then have "\<And>m. fst (updateTargetsLoop wt tm rest m) ! j = rest ! j"
      by (rule Cons.IH)
    with Suc show ?thesis
      by (simp add: updateTargetsLoop_fst del: updateTargetsLoop.simps(2))
  qed
qed

text \<open>
  The order of the appliers is an invariant of the cache: it holds of a new cache,
  \<open>updateRules\<close> establishes it, and \<open>updateTargets\<close> and the statistics snapshot keep the
  rule of every applier in its place (for \<open>updateTargets\<close>: when \<open>withTarget\<close> keeps the
  rule, as the one of the specification does).
\<close>

lemma withTarget_samplingRule: "samplingRule (withTarget applier target) = samplingRule applier"
  by (cases target) simp_all

lemma updateTargetsLoop_keys:
  assumes "\<And>a t. samplingRule (wt a t) = samplingRule a"
  shows "map ruleKey (fst (updateTargetsLoop wt tm rules m)) = map ruleKey rules"
  by (induction rules arbitrary: m)
     (simp_all add: updateTargetsLoop_fst ruleKey_def assms
        del: updateTargetsLoop.simps(2) split: option.splits)

lemma updateTargets_keeps_order:
  assumes "\<And>a t. samplingRule (wt a t) = samplingRule a"
  shows "map ruleKey (ruleAppliers (fst (updateTargets wt cache tm lrm))) =
         map ruleKey (ruleAppliers cache)"
  using updateTargetsLoop_keys [of wt tm "ruleAppliers cache" None, OF assms]
  by (simp add: updateTargets_def case_prod_beta Let_def)

lemma statisticsDocuments_keys:
  "map ruleKey (snd (statisticsDocuments clientId clock i rules)) = map ruleKey rules"
  by (induction rules arbitrary: i)
     (simp_all add: case_prod_beta Let_def snapshotStatistics_def ruleKey_def)

text \<open>Every document carries the whole seconds of the clock reading of its own applier.\<close>

lemma statisticsDocuments_timestamps:
  "map Timestamp (fst (statisticsDocuments clientId clock i rules)) =
     map (\<lambda>j. clock j div 1000) [i ..< i + length rules]"
proof (induction rules arbitrary: i)
  case Nil
  show ?case by simp
next
  case (Cons rule rest)
  have "[i ..< i + length (rule # rest)] = i # [Suc i ..< Suc i + length rest]"
    by (simp add: upt_rec)
  then show ?case
    by (simp add: case_prod_beta Let_def Cons.IH)
qed

lemma createSamplingStatisticsDocuments_keeps_order:
  "map ruleKey (ruleAppliers (snd (createSamplingStatisticsDocuments cache clientId clock))) =
   map ruleKey (ruleAppliers cache)"
  by (simp add: createSamplingStatisticsDocuments_def case_prod_beta statisticsDocuments_keys)

lemma newRuleCache_sorted: "sorted (map ruleKey (ruleAppliers (newRuleCache resource now)))"
  by (simp add: newRuleCache_def)

text \<open>
  C7. The first component of the result of \<open>updateTargets\<close> is true if and only if
  \<open>lastRuleModification * 1000 > lastUpdatedEpochMillis\<close> of the cache, whatever the targets
  and whether or not any of them matched an applier.
\<close>

theorem updateTargets_refresh:
  "fst (snd (updateTargets wt cache tm lastRuleModification)) =
     (lastRuleModification * 1000 > lastUpdatedEpochMillis cache)"
  by (simp add: updateTargets_def case_prod_beta Let_def)

text \<open>An instance, in a cache last refreshed at 5000 ms: modified at 6 s, and at 5 s.\<close>

theorem updateTargets_refresh_witness:
  "fst (snd (updateTargets withTarget twoRuleCache [] 6)) \<and>
   \<not> fst (snd (updateTargets withTarget twoRuleCache [(''A'', exampleTarget ''A'' None)] 5))"
  using updateTargets_refresh [of withTarget twoRuleCache "[]" 6]
    updateTargets_refresh [of withTarget twoRuleCache "[(''A'', exampleTarget ''A'' None)]" 5]
  by (simp add: twoRuleCache_def)

text \<open>
  C8, as the code has it. The second component of the result of \<open>updateTargets\<close> is the
  minimum \<open>Interval\<close> among the received targets that are applied to an applier of the
  cache, an \<open>Interval\<close> of \<open>0\<close> counting as absent, and the default of 10 seconds when there
  is no such interval. A received target whose rule name matches no applier is ignored.
\<close>

theorem updateTargets_interval:
  "snd (snd (updateTargets wt cache tm lastRuleModification)) =
     (if appliedIntervals tm (ruleAppliers cache) = []
      then DEFAULT_TARGET_POLLING_INTERVAL_SECONDS
      else Min (set (appliedIntervals tm (ruleAppliers cache))))"
proof -
  let ?is = "appliedIntervals tm (ruleAppliers cache)"
  have m: "snd (updateTargetsLoop wt tm (ruleAppliers cache) None) = minWith None ?is"
    by (rule updateTargetsLoop_min)
  show ?thesis
  proof (cases "?is = []")
    case True
    with m show ?thesis
      by (simp add: updateTargets_def minWith_def case_prod_beta Let_def)
  next
    case False
    then have "Min (set ?is) \<in> set ?is" by (intro Min_in) simp_all
    with appliedIntervals_nonzero [of tm "ruleAppliers cache"] have "Min (set ?is) \<noteq> 0"
      by metis
    with m False show ?thesis
      by (simp add: updateTargets_def minWith_def case_prod_beta Let_def)
  qed
qed

text \<open>
  Instances: the targets of \<open>A\<close> and \<open>B\<close> carry the intervals 7 and 20; the only
  target carries none.
\<close>

theorem updateTargets_interval_witness:
  "snd (snd (updateTargets withTarget twoRuleCache
       [(''B'', exampleTarget ''B'' (Some 20)), (''A'', exampleTarget ''A'' (Some 7))] 0)) = 7 \<and>
   snd (snd (updateTargets withTarget twoRuleCache [(''A'', exampleTarget ''A'' None)] 0)) = 10"
  using updateTargets_interval [of withTarget twoRuleCache
       "[(''B'', exampleTarget ''B'' (Some 20)), (''A'', exampleTarget ''A'' (Some 7))]" 0]
    updateTargets_interval [of withTarget twoRuleCache "[(''A'', exampleTarget ''A'' None)]" 0]
  by (simp add: appliedIntervals_def twoRuleCache_def exampleTarget_def exampleRule_def
      newSamplingRuleApplier_def DEFAULT_TARGET_POLLING_INTERVAL_SECONDS_def)

text \<open>
  C8, as stated, fails when a received target names no applier of the cache: the cache
  holds \<open>A\<close> and \<open>B\<close>, the received target of \<open>C\<close> carries the smallest interval, 2, and
  the result is 7.
\<close>

theorem updateTargets_interval_unmatched:
  "snd (snd (updateTargets withTarget twoRuleCache
       [(''B'', exampleTarget ''B'' (Some 20)), (''A'', exampleTarget ''A'' (Some 7)),
        (''C'', exampleTarget ''C'' (Some 2))] 0)) = 7 \<and>
   claimedPollingInterval
       [(''B'', exampleTarget ''B'' (Some 20)), (''A'', exampleTarget ''A'' (Some 7)),
        (''C'', exampleTarget ''C'' (Some 2))] = 2"
  by (simp add: updateTargets_def twoRuleCache_def claimedPollingInterval_def lookupTarget_def
      receivedIntervals_def exampleTarget_def exampleRule_def newSamplingRuleApplier_def)

text \<open>
  What \<open>updateTargets\<close> leaves alone. It leaves \<open>lastUpdatedEpochMillis\<close> as it is, and with
  it the expiry of the cache; it keeps the number of appliers, and every applier for whose
  rule name \<open>targetDocuments[name]\<close> is \<open>undefined\<close> is left unchanged in its place. The
  constructor and \<open>updateRules\<close> set \<open>lastUpdatedEpochMillis\<close> to the current time; taking the
  statistics documents does not touch it (\<open>getMatchedRule\<close> and \<open>isExpired\<close> only read the
  cache).
\<close>

lemma updateTargets_frame:
  "lastUpdatedEpochMillis (fst (updateTargets wt cache tm lrm)) = lastUpdatedEpochMillis cache \<and>
   isExpired (fst (updateTargets wt cache tm lrm)) now = isExpired cache now \<and>
   length (ruleAppliers (fst (updateTargets wt cache tm lrm))) = length (ruleAppliers cache) \<and>
   (\<forall>i < length (ruleAppliers cache).
      lookupTarget tm (RuleName (samplingRule (ruleAppliers cache ! i))) = None \<longrightarrow>
      ruleAppliers (fst (updateTargets wt cache tm lrm)) ! i = ruleAppliers cache ! i) \<and>
   lastUpdatedEpochMillis (updateRules cache newAppliers now) = now \<and>
   lastUpdatedEpochMillis (newRuleCache resource now) = now \<and>
   lastUpdatedEpochMillis (snd (createSamplingStatisticsDocuments cache clientId clock)) =
     lastUpdatedEpochMillis cache"
proof -
  obtain appliers result where
    loop: "updateTargetsLoop wt tm (ruleAppliers cache) None = (appliers, result)"
    by (cases "updateTargetsLoop wt tm (ruleAppliers cache) None")
  then have c: "fst (updateTargets wt cache tm lrm) = cache\<lparr>ruleAppliers := appliers\<rparr>"
    by (simp add: updateTargets_def)
  have a: "appliers = fst (updateTargetsLoop wt tm (ruleAppliers cache) None)"
    by (simp add: loop)
  show ?thesis
    by (simp add: c isExpired_def updateRules_def newRuleCache_def
        createSamplingStatisticsDocuments_def split: prod.splits)
       (simp add: a updateTargetsLoop_length updateTargetsLoop_nth)
qed

text \<open>
  An applier whose rule name has an entry of its own neither in the target map nor in
  \<open>Object.prototype\<close> is left unchanged.
\<close>

lemma updateTargets_no_entry:
  assumes "i < length (ruleAppliers cache)"
    and "map_of tm (RuleName (samplingRule (ruleAppliers cache ! i))) = None"
    and "RuleName (samplingRule (ruleAppliers cache ! i)) \<notin> set objectPrototypeNames"
  shows "ruleAppliers (fst (updateTargets wt cache tm lrm)) ! i = ruleAppliers cache ! i"
proof -
  from assms(2,3)
  have "lookupTarget tm (RuleName (samplingRule (ruleAppliers cache ! i))) = None"
    by (simp add: lookupTarget_def)
  with assms(1)
  have "fst (updateTargetsLoop wt tm (ruleAppliers cache) None) ! i = ruleAppliers cache ! i"
    by (rule updateTargetsLoop_nth)
  then show ?thesis
    by (simp add: updateTargets_def case_prod_beta Let_def)
qed


section \<open>The fallback sampler: the claim\<close>

text \<open>
  C9. A \<open>FallbackSampler\<close> is built from a rate-limiting sampler of 1 request per second
  and a trace-id-ratio sampler of ratio 0.05. Its \<open>shouldSample\<close> returns the result of the
  rate-limiting sampler whenever the decision of that result is not \<open>NOT_RECORD\<close>, and
  otherwise the result of the trace-id-ratio sampler for the context and the trace id,
  which does not depend on the rate limiter. Every call goes through the rate limiter and
  leaves it in the state the limiter's own \<open>shouldSample\<close> has left, so that the next call
  is decided from there; the trace-id-ratio sampler stays as it is.
\<close>

theorem shouldSample_composite:
  "fst (shouldSample limiterShouldSample fixedShouldSample
          (newFallbackSampler newFixed newLimiter) request) =
     (let limited = fst (limiterShouldSample (newLimiter 1) request) in
      if decision limited \<noteq> NOT_RECORD then limited
      else fixedShouldSample (newFixed (5 / 100)) (requestContext request) (traceId request)) \<and>
   fst (shouldSample limiterShouldSample fixedShouldSample sampler request) =
     (let limited = fst (limiterShouldSample (rateLimitingSampler sampler) request) in
      if decision limited \<noteq> NOT_RECORD then limited
      else fixedShouldSample (fixedRateSampler sampler) (requestContext request)
             (traceId request)) \<and>
   snd (shouldSample limiterShouldSample fixedShouldSample sampler request) =
     sampler\<lparr>rateLimitingSampler :=
               snd (limiterShouldSample (rateLimitingSampler sampler) request)\<rparr> \<and>
   rateLimitingSampler (newFallbackSampler newFixed newLimiter) = newLimiter 1 \<and>
   fixedRateSampler (newFallbackSampler newFixed newLimiter) = newFixed (5 / 100)"
  by (simp add: shouldSample_def newFallbackSampler_def case_prod_beta Let_def)

text \<open>
  An instance, with a limiter that grants as many requests as it was built for: the first
  request is granted by the limiter, which is then exhausted; the second and the third are
  decided by the trace id.
\<close>

theorem shouldSample_composite_witness:
  "decision (fst (shouldSample exampleLimiterShouldSample exampleFixedShouldSample
       (newFallbackSampler id nat) (exampleRequest ''ffff''))) = RECORD_AND_SAMPLED \<and>
   rateLimitingSampler (snd (shouldSample exampleLimiterShouldSample exampleFixedShouldSample
       (newFallbackSampler id nat) (exampleRequest ''ffff''))) = 0 \<and>
   decision (fst (shouldSample exampleLimiterShouldSample exampleFixedShouldSample
       (snd (shouldSample exampleLimiterShouldSample exampleFixedShouldSample
          (newFallbackSampler id nat) (exampleRequest ''ffff'')))
       (exampleRequest ''ffff''))) = NOT_RECORD \<and>
   decision (fst (shouldSample exampleLimiterShouldSample exampleFixedShouldSample
       (snd (shouldSample exampleLimiterShouldSample exampleFixedShouldSample
          (newFallbackSampler id nat) (exampleRequest ''ffff'')))
       (exampleRequest ''0000''))) = RECORD_AND_SAMPLED"
proof -
  let ?first = "shouldSample exampleLimiterShouldSample exampleFixedShouldSample
       (newFallbackSampler id nat) (exampleRequest ''ffff'')"
  note one = shouldSample_composite [where limiterShouldSample = exampleLimiterShouldSample
      and fixedShouldSample = exampleFixedShouldSample and newFixed = id and newLimiter = nat
      and request = "exampleRequest ''ffff''" and sampler = "newFallbackSampler id nat"]
  note two = shouldSample_composite [where limiterShouldSample = exampleLimiterShouldSample
      and fixedShouldSample = exampleFixedShouldSample and newFixed = id and newLimiter = nat
      and request = "exampleRequest ''ffff''" and sampler = "snd ?first"]
  note three = shouldSample_composite [where limiterShouldSample = exampleLimiterShouldSample
      and fixedShouldSample = exampleFixedShouldSample and newFixed = id and newLimiter = nat
      and request = "exampleRequest ''0000''" and sampler = "snd ?first"]
  from one have s: "snd ?first = (newFallbackSampler id nat)\<lparr>rateLimitingSampler := 0\<rparr>"
    by (simp add: exampleLimiterShouldSample_def)
  from one two three show ?thesis
    by (simp add: s exampleLimiterShouldSample_def exampleFixedShouldSample_def
        exampleRequest_def)
qed

end
